theory Spec2Isabelle
  imports Main "HOL-Library.Multiset"
begin

section \<open>The run controller of jest-cli (\<^verbatim>\<open>packages/jest-cli/src/runJest.js\<close>)\<close>

text \<open>
  The source is one JavaScript module: the pattern formatter \<^verbatim>\<open>formatTestPathPattern\<close>,
  the no-match message builder \<^verbatim>\<open>getNoTestsFoundMessage\<close>, the per-context discovery
  \<^verbatim>\<open>getTestPaths\<close>, the post-processor \<^verbatim>\<open>processResults\<close> and the controller
  \<^verbatim>\<open>runJest\<close>. Everything else it calls (search engine, sequencer, test runner, chalk,
  the console, \<^verbatim>\<open>path\<close>, \<^verbatim>\<open>fs\<close>, \<^verbatim>\<open>JSON\<close>) lives outside the module and is a parameter of the
  model: what such a call returns is a field of the record \<open>env\<close>, and that the call was
  made is an \<open>event\<close> of the trace.
\<close>

subsection \<open>JavaScript values\<close>

datatype jsval =
    Undefined
  | Null
  | Bool bool
  | Num int
  | Str string
  | Arr "jsval list"
  | Obj "(string \<times> jsval) list"

text \<open>What \<^verbatim>\<open>if (v)\<close>, \<^verbatim>\<open>v && e\<close> and \<^verbatim>\<open>v || e\<close> test: arrays and objects are always truthy.\<close>

fun truthy :: "jsval \<Rightarrow> bool" where
  "truthy Undefined = False"
| "truthy Null = False"
| "truthy (Bool b) = b"
| "truthy (Num n) = (n \<noteq> 0)"
| "truthy (Str s) = (s \<noteq> [])"
| "truthy (Arr xs) = True"
| "truthy (Obj kvs) = True"

text \<open>An optional string field (\<^verbatim>\<open>?: string\<close>): \<open>None\<close> is \<^verbatim>\<open>undefined\<close>.
  \<^verbatim>\<open>s || ''\<close> and the truth value of \<^verbatim>\<open>s\<close>.\<close>

definition or_empty :: "string option \<Rightarrow> string" where
  "or_empty s = (case s of None \<Rightarrow> [] | Some t \<Rightarrow> t)"

definition truthy_str :: "string option \<Rightarrow> bool" where
  "truthy_str s = (case s of None \<Rightarrow> False | Some t \<Rightarrow> t \<noteq> [])"

text \<open>\<^verbatim>\<open>Array.prototype.join\<close> on an array of strings.\<close>

fun join :: "string \<Rightarrow> string list \<Rightarrow> string" where
  "join sep [] = []"
| "join sep [x] = x"
| "join sep (x # y # ys) = x @ sep @ join sep (y # ys)"

text \<open>A non-negative integer inside a template literal: its decimal digits.\<close>

definition digit :: "nat \<Rightarrow> char" where
  "digit d = ''0123456789'' ! d"

function string_of_nat :: "nat \<Rightarrow> string" where
  "string_of_nat n = (if n < 10 then [digit n] else string_of_nat (n div 10) @ [digit (n mod 10)])"
  by pat_completeness auto
termination
  by (relation "measure id") auto

declare string_of_nat.simps [simp del]

subsection \<open>The selection pattern and its formatter\<close>

text \<open>The fields of a \<^verbatim>\<open>TestSelectionConfig\<close> that the module reads. The flags are only
  ever tested for truth, so \<^verbatim>\<open>undefined\<close> and \<^verbatim>\<open>false\<close> are one value.\<close>

record TestSelectionConfig =
  input :: "string option"
  testPathPattern :: "string option"
  shouldTreatInputAsPattern :: bool
  onlyChanged :: bool
  watch :: bool

abbreviation dq :: string where
  "dq \<equiv> [CHR 0x22]"

definition formatTestPathPattern :: "TestSelectionConfig \<Rightarrow> string" where
  "formatTestPathPattern pattern =
     (let testPattern = testPathPattern pattern;
          input = input pattern;
          formattedPattern = ''/'' @ or_empty testPattern @ ''/'';
          formattedInput =
            (if shouldTreatInputAsPattern pattern
             then ''/'' @ or_empty input @ ''/''
             else dq @ or_empty input @ dq)
      in if input = testPattern then formattedInput else formattedPattern)"

subsection \<open>Configurations, contexts, tests and the object store\<close>

text \<open>
  The fields of \<^verbatim>\<open>GlobalConfig\<close> and \<^verbatim>\<open>ProjectConfig\<close> that the module reads, each with the
  remaining properties kept in \<open>other\<close>. \<^verbatim>\<open>silent\<close> and \<^verbatim>\<open>verbose\<close> are compared with
  \<^verbatim>\<open>!== true\<close> and \<^verbatim>\<open>!== false\<close>, so their \<^verbatim>\<open>undefined\<close> is kept apart as \<open>None\<close>.
\<close>

record GlobalConfig =
  watch :: bool
  silent :: "bool option"
  verbose :: "bool option"
  testResultsProcessor :: "string option"
  other :: "(string \<times> jsval) list"

record ProjectConfig =
  rootDir :: string
  roots :: "string list"
  other :: "(string \<times> jsval) list"

text \<open>\<^verbatim>\<open>config[key]\<close> for a key that is only known at run time.\<close>

definition config_get :: "ProjectConfig \<Rightarrow> string \<Rightarrow> jsval" where
  "config_get c key =
     (if key = ''rootDir'' then Str (rootDir c)
      else if key = ''roots'' then Arr (map Str (roots c))
      else (case map_of (ProjectConfig.other c) key of None \<Rightarrow> Undefined | Some v \<Rightarrow> v))"

text \<open>
  Configuration objects are shared by reference and replaced by fresh frozen copies
  (\<^verbatim>\<open>Object.freeze(Object.assign({}, old, patch))\<close>), so they live in a store: an address is
  a natural number, \<open>next_addr\<close> is the first address not yet allocated, and a context
  object holds the address of its configuration (\<^verbatim>\<open>context.config\<close>; the word
  \<^verbatim>\<open>context\<close> itself is reserved in Isabelle, hence \<open>test_context\<close> and \<open>run_context\<close>
  below).
\<close>

record 'a jsobj =
  frozen :: bool
  props :: 'a

record Context =
  config :: nat

record store =
  globalConfigs :: "nat \<Rightarrow> GlobalConfig jsobj"
  configs :: "nat \<Rightarrow> ProjectConfig jsobj"
  contextObjs :: "nat \<Rightarrow> Context"
  next_addr :: nat

record Test =
  test_context :: nat
  path :: string

text \<open>The search engine's answer (\<^verbatim>\<open>SearchResult\<close>); \<open>total_n\<close> is its \<^verbatim>\<open>total\<close>.\<close>

record SearchResult =
  tests :: "Test list"
  stats :: "(string \<times> nat) list option"
  total_n :: "nat option"
  noSCM :: bool

text \<open>One element of \<^verbatim>\<open>testRunData\<close>: \<^verbatim>\<open>{context, matches}\<close>.\<close>

record TestRun =
  run_context :: nat
  matches :: SearchResult

record Argv =
  listTests :: bool
  json :: bool
  outputFile :: "string option"
  testNamePattern :: "string option"
  more_args :: "(string \<times> jsval) list"

text \<open>The options handed to \<^verbatim>\<open>new TestRunner(globalConfig, options)\<close>; \<open>startRun\<close> is the
  host's hook, passed on and never called here.\<close>

record RunOptions =
  maxWorkers :: nat
  pattern :: TestSelectionConfig
  startRun :: nat
  testNamePattern :: "string option"
  testPathPattern :: string

text \<open>The options of \<^verbatim>\<open>processResults\<close>. An absent \<^verbatim>\<open>onComplete\<close> is \<open>None\<close>.\<close>

record ProcessOptions =
  isJSON :: bool
  onComplete :: "(jsval \<Rightarrow> jsval) option"
  outputFile :: "string option"
  testResultsProcessor :: "string option"

subsection \<open>Collaborators and events\<close>

text \<open>
  What the collaborators return. \<open>updateArgv\<close> changes \<^verbatim>\<open>argv\<close> in place; here it returns
  the changed value. The search engine and the test runner receive objects by reference
  and so may read the whole store.
\<close>

record env =
  getMaxWorkers :: "Argv \<Rightarrow> nat"
  getTestPathPattern :: "Argv \<Rightarrow> TestSelectionConfig"
  updateArgv :: "Argv \<Rightarrow> string \<Rightarrow> (string \<times> jsval) list \<Rightarrow> Argv"
  searchSource_getTestPaths :: "store \<Rightarrow> nat \<Rightarrow> TestSelectionConfig \<Rightarrow> SearchResult"
  sequencer_sort :: "Test list \<Rightarrow> Test list"
  testRunner_runTests :: "store \<Rightarrow> nat \<Rightarrow> RunOptions \<Rightarrow> Test list \<Rightarrow> nat \<Rightarrow> jsval"
  require :: "string \<Rightarrow> jsval \<Rightarrow> jsval"
  formatTestResults :: "jsval \<Rightarrow> jsval"
  JSON_stringify :: "jsval \<Rightarrow> string"
  JSON_quote :: "string \<Rightarrow> string"
  path_resolve :: "string \<Rightarrow> string \<Rightarrow> string"
  path_relative :: "string \<Rightarrow> string \<Rightarrow> string"
  process_cwd :: string
  makeEmptyAggregatedTestResult :: jsval
  chalk_bold :: "jsval \<Rightarrow> string"
  chalk_dim :: "jsval \<Rightarrow> string"
  chalk_yellow :: "jsval \<Rightarrow> string"

text \<open>
  The calls with an effect outside the module, in the order they are made. A stream, the
  test watcher and the host's hooks are opaque handles.
\<close>

datatype event =
    is_GetTestPaths: GetTestPaths nat TestSelectionConfig
  | is_StreamLog: StreamLog nat string
  | is_ConsoleLog: ConsoleLog string
  | is_StdoutWrite: StdoutWrite string
  | is_WriteFileSync: WriteFileSync string string
  | is_SequencerSort: SequencerSort "Test list"
  | is_PrintNoTestsMessage: PrintNoTestsMessage nat "TestRun list" TestSelectionConfig
  | is_RunTests: RunTests nat RunOptions "Test list" nat
  | is_CacheResults: CacheResults "Test list" jsval
  | is_ResultsProcessor: ResultsProcessor string jsval
  | is_OnComplete: OnComplete jsval

text \<open>
  \<open>GetTestPaths c p\<close> is \<^verbatim>\<open>new SearchSource(c).getTestPaths(p)\<close>; \<open>StreamLog s t\<close> is
  \<^verbatim>\<open>new Console(s, s).log(t)\<close>; \<open>ConsoleLog\<close> is the global \<^verbatim>\<open>console.log\<close>; \<open>StdoutWrite\<close>
  is \<^verbatim>\<open>process.stdout.write\<close>; \<open>RunTests g o ts w\<close> is
  \<^verbatim>\<open>new TestRunner(g, o).runTests(ts, w)\<close>; \<open>CacheResults\<close> is \<^verbatim>\<open>sequencer.cacheResults\<close>;
  \<open>ResultsProcessor f r\<close> is \<^verbatim>\<open>require(f)(r)\<close>.
\<close>

subsection \<open>The no-match message\<close>

abbreviation nl :: string where
  "nl \<equiv> [CHR 0x0A]"

definition pluralize :: "string \<Rightarrow> nat \<Rightarrow> string \<Rightarrow> string" where
  "pluralize word cnt ending =
     string_of_nat cnt @ '' '' @ word @ (if cnt = 1 then [] else ending)"

text \<open>The callback of \<^verbatim>\<open>Object.keys(stats).map\<close>: \<open>None\<close> is its \<^verbatim>\<open>null\<close>; \<open>cnt\<close> is
  \<^verbatim>\<open>stats[key]\<close>.\<close>

definition stat_line :: "env \<Rightarrow> ProjectConfig \<Rightarrow> string \<times> nat \<Rightarrow> string option" where
  "stat_line env config kc =
     (case kc of (key, cnt) \<Rightarrow>
        if key = ''roots'' \<and> length (roots config) = 1 then None
        else
          (let v = config_get config key in
           if truthy v
           then Some (''  '' @ key @ '': '' @ chalk_yellow env v @ '' - ''
                      @ pluralize ''match'' cnt ''es'')
           else None))"
  for config

text \<open>\<^verbatim>\<open>.filter(line => line)\<close>: drops \<^verbatim>\<open>null\<close> and the empty string.\<close>

fun filter_lines :: "string option list \<Rightarrow> string list" where
  "filter_lines [] = []"
| "filter_lines (None # ls) = filter_lines ls"
| "filter_lines (Some s # ls) = (if s = [] then filter_lines ls else s # filter_lines ls)"

definition individualResult :: "env \<Rightarrow> store \<Rightarrow> TestRun \<Rightarrow> string" where
  "individualResult env st testRun =
     (let stats = (case stats (matches testRun) of None \<Rightarrow> [] | Some s \<Rightarrow> s);
          config = props (configs st (config (contextObjs st (run_context testRun))));
          statsMessage = join nl (filter_lines (map (stat_line env config) stats));
          total = (case total_n (matches testRun) of None \<Rightarrow> 0 | Some n \<Rightarrow> n)
      in if total \<noteq> 0
         then ''In '' @ chalk_bold env (Str (rootDir config)) @ nl
              @ ''  '' @ pluralize ''file'' total ''s'' @ '' checked.'' @ nl
              @ statsMessage
         else ''No files found in '' @ rootDir config @ ''.'' @ nl
              @ ''Make sure Jest's configuration does not exclude this directory.''
              @ nl @ ''To set up Jest, make sure a package.json file exists.'' @ nl
              @ ''Jest Documentation: ''
              @ ''facebook.github.io/jest/docs/configuration.html'')"

definition getNoTestsFoundMessage ::
    "env \<Rightarrow> store \<Rightarrow> TestRun list \<Rightarrow> TestSelectionConfig \<Rightarrow> string" where
  "getNoTestsFoundMessage env st testRunData pattern =
     (if onlyChanged pattern
      then chalk_bold env
             (Str (''No tests found related to files changed since last commit.'' @ nl))
           @ chalk_dim env
             (Str (if TestSelectionConfig.watch pattern
                   then ''Press `a` to run all tests, or run Jest with `--watchAll`.''
                   else ''Run Jest without `-o` to run all tests.''))
      else
        (let testPathPattern = formatTestPathPattern pattern;
             individualResults = map (individualResult env st) testRunData
         in chalk_bold env (Str ''No tests found'') @ nl
            @ join nl individualResults @ nl
            @ ''Pattern: '' @ chalk_yellow env (Str testPathPattern) @ '' - 0 matches''))"
  for pattern

subsection \<open>Per-context discovery\<close>

definition noSCM_message :: string where
  "noSCM_message =
     ''Jest can only find uncommitted changed files in a git or hg ''
     @ ''repository. If you make your project a git or hg ''
     @ ''repository (`git init` or `hg init`), Jest will be able ''
     @ ''to only run tests related to files changed since the last ''
     @ ''commit.''"

text \<open>
  \<^verbatim>\<open>getTestPaths\<close> is an \<^verbatim>\<open>async\<close> function with two \<^verbatim>\<open>await\<close>s. Between two suspension
  points its body runs without interruption. \<open>getTestPaths_resume\<close> is the part of the body
  between the first \<^verbatim>\<open>await\<close> and the next suspension: given the engine's first answer
  \<open>data\<close>, it either returns or asks the engine again with a pattern computed from the
  updated \<^verbatim>\<open>argv\<close>.
\<close>

datatype suspension = Await TestSelectionConfig | Return SearchResult

definition getTestPaths_resume ::
    "env \<Rightarrow> store \<Rightarrow> nat \<Rightarrow> nat \<Rightarrow> TestSelectionConfig \<Rightarrow> Argv \<Rightarrow> nat \<Rightarrow> SearchResult
     \<Rightarrow> suspension \<times> Argv \<times> event list" where
  "getTestPaths_resume env st globalConfig context pattern argv outputStream data =
     (if tests data = [] then
        (if onlyChanged pattern \<and> noSCM data then
           (if GlobalConfig.watch (props (globalConfigs st globalConfig)) then
              (let argv' = updateArgv env argv ''watchAll'' [(''noSCM'', Bool True)];
                   pattern' = getTestPathPattern env argv'
               in (Await pattern', argv', [GetTestPaths context pattern']))
            else (Return data, argv, [StreamLog outputStream noSCM_message]))
         else (Return data, argv, []))
      else (Return data, argv, []))"
  for pattern

text \<open>One call of \<^verbatim>\<open>getTestPaths\<close> from start to return, with nothing else running in
  between: the answer, the \<^verbatim>\<open>argv\<close> it leaves, and the calls it made.\<close>

definition getTestPaths ::
    "env \<Rightarrow> store \<Rightarrow> nat \<Rightarrow> nat \<Rightarrow> TestSelectionConfig \<Rightarrow> Argv \<Rightarrow> nat
     \<Rightarrow> SearchResult \<times> Argv \<times> event list" where
  "getTestPaths env st globalConfig context pattern argv outputStream =
     (let data = searchSource_getTestPaths env st context pattern in
      case getTestPaths_resume env st globalConfig context pattern argv outputStream data of
        (Return d, argv', evs) \<Rightarrow> (d, argv', GetTestPaths context pattern # evs)
      | (Await pattern', argv', evs) \<Rightarrow>
          (searchSource_getTestPaths env st context pattern', argv',
           GetTestPaths context pattern # evs))"
  for pattern

subsection \<open>Discovery over all contexts\<close>

text \<open>
  \<^verbatim>\<open>Promise.all(contexts.map(async context => ...))\<close> starts one task per context. Each
  task runs up to its first \<^verbatim>\<open>await\<close> at once, in context order, so the first engine call
  of every context is made before any answer is looked at. From then on a task continues
  only when the promise it waits for is resolved, and which promise is resolved next is
  decided outside the module. When the call of \<^verbatim>\<open>getTestPaths\<close> has returned, the task
  appends the matched tests to the shared \<^verbatim>\<open>allTests\<close>.
\<close>

datatype task = AwaitFirst | AwaitSecond TestSelectionConfig | Settled SearchResult

record discovery =
  tasks :: "(nat \<times> task) list"
  argv_now :: Argv
  allTests :: "Test list"
  emitted :: "event list"

text \<open>The task at position \<open>i\<close> continues after its pending promise was resolved. A
  position that has no pending task leaves everything as it is.\<close>

definition resume_task ::
    "env \<Rightarrow> store \<Rightarrow> nat \<Rightarrow> TestSelectionConfig \<Rightarrow> nat \<Rightarrow> nat \<Rightarrow> discovery \<Rightarrow> discovery" where
  "resume_task env st globalConfig pattern outputStream i d =
     (if i < length (tasks d) then
        (case tasks d ! i of
           (context, AwaitFirst) \<Rightarrow>
             (case getTestPaths_resume env st globalConfig context pattern (argv_now d)
                     outputStream (searchSource_getTestPaths env st context pattern) of
                (Await pattern', argv', evs) \<Rightarrow>
                  d\<lparr>tasks := (tasks d)[i := (context, AwaitSecond pattern')],
                    argv_now := argv', emitted := emitted d @ evs\<rparr>
              | (Return found, argv', evs) \<Rightarrow>
                  d\<lparr>tasks := (tasks d)[i := (context, Settled found)],
                    argv_now := argv', allTests := allTests d @ tests found,
                    emitted := emitted d @ evs\<rparr>)
         | (context, AwaitSecond pattern') \<Rightarrow>
             (let found = searchSource_getTestPaths env st context pattern' in
              d\<lparr>tasks := (tasks d)[i := (context, Settled found)],
                allTests := allTests d @ tests found\<rparr>)
         | (context, Settled found) \<Rightarrow> d)
      else d)"
  for pattern

text \<open>
  \<open>sched\<close> lists the positions of the contexts in the order in which their pending
  promises are resolved. Whatever is still pending after \<open>sched\<close> is resolved first in,
  first out; a task waits at most twice, so two rounds settle all of them. With
  \<open>sched = []\<close> every promise is resolved as soon as it is made.
\<close>

definition discover ::
    "env \<Rightarrow> store \<Rightarrow> nat \<Rightarrow> nat list \<Rightarrow> TestSelectionConfig \<Rightarrow> Argv \<Rightarrow> nat \<Rightarrow> nat list
     \<Rightarrow> discovery" where
  "discover env st globalConfig contexts pattern argv outputStream sched =
     fold (resume_task env st globalConfig pattern outputStream)
       (sched @ [0..<length contexts] @ [0..<length contexts])
       \<lparr>tasks = map (\<lambda>context. (context, AwaitFirst)) contexts,
        argv_now = argv,
        allTests = [],
        emitted = map (\<lambda>context. GetTestPaths context pattern) contexts\<rparr>"
  for pattern

text \<open>What \<^verbatim>\<open>Promise.all\<close> resolves to: one \<^verbatim>\<open>{context, matches}\<close> per settled task, in
  context order.\<close>

fun testRunData_of :: "(nat \<times> task) list \<Rightarrow> TestRun list" where
  "testRunData_of [] = []"
| "testRunData_of ((context, Settled found) # ts) =
     \<lparr>run_context = context, matches = found\<rparr> # testRunData_of ts"
| "testRunData_of ((context, _) # ts) = testRunData_of ts"

subsection \<open>Post-processing\<close>

text \<open>Lines 133 to 136: the optional \<^verbatim>\<open>testResultsProcessor\<close>, a module path that is
  loaded and applied when the option is a non-empty string.\<close>

definition apply_processor :: "env \<Rightarrow> jsval \<Rightarrow> string option \<Rightarrow> jsval \<times> event list" where
  "apply_processor env runResults processor =
     (case processor of
        None \<Rightarrow> (runResults, [])
      | Some f \<Rightarrow>
          if f = [] then (runResults, [])
          else (require env f runResults, [ResultsProcessor f runResults]))"

text \<open>
  \<^verbatim>\<open>return options.onComplete && options.onComplete(runResults)\<close>: without a callback
  the value of the expression is the absent callback itself, \<^verbatim>\<open>undefined\<close>.
\<close>

definition processResults :: "env \<Rightarrow> jsval \<Rightarrow> ProcessOptions \<Rightarrow> jsval \<times> event list" where
  "processResults env runResults options =
     (let processed = apply_processor env runResults (ProcessOptions.testResultsProcessor options);
          runResults = fst processed;
          written =
            (if isJSON options then
               (case ProcessOptions.outputFile options of
                  None \<Rightarrow>
                    [StdoutWrite (JSON_stringify env (formatTestResults env runResults))]
                | Some file \<Rightarrow>
                    if file = [] then
                      [StdoutWrite (JSON_stringify env (formatTestResults env runResults))]
                    else
                      (let outputFile = path_resolve env (process_cwd env) file in
                       [WriteFileSync outputFile
                          (JSON_stringify env (formatTestResults env runResults)),
                        StdoutWrite (''Test results written to: ''
                          @ path_relative env (process_cwd env) outputFile @ nl)]))
             else [])
      in case onComplete options of
           None \<Rightarrow> (Undefined, snd processed @ written)
         | Some callback \<Rightarrow>
             (callback runResults, snd processed @ written @ [OnComplete runResults]))"

subsection \<open>The controller\<close>

text \<open>\<^verbatim>\<open>JSON.stringify\<close> of an array of strings.\<close>

definition JSON_stringify_strings :: "env \<Rightarrow> string list \<Rightarrow> string" where
  "JSON_stringify_strings env ss = ''['' @ join '','' (map (JSON_quote env) ss) @ '']''"

text \<open>\<^verbatim>\<open>setConfig(contexts, newConfig)\<close>: every context gets a fresh frozen configuration,
  the old one with the properties of \<open>newConfig\<close> written over it.\<close>

fun setConfig :: "store \<Rightarrow> nat list \<Rightarrow> (ProjectConfig \<Rightarrow> ProjectConfig) \<Rightarrow> store" where
  "setConfig st [] newConfig = st"
| "setConfig st (context # contexts) newConfig =
     setConfig
       (st\<lparr>configs := (configs st)
              (next_addr st :=
                 \<lparr>frozen = True,
                  props = newConfig (props (configs st (config (contextObjs st context))))\<rparr>),
            contextObjs := (contextObjs st)
              (context := (contextObjs st context)\<lparr>config := next_addr st\<rparr>),
            next_addr := Suc (next_addr st)\<rparr>)
       contexts newConfig"

text \<open>
  Lines 201 to 218: the message for an empty test list, or, for a single test, the
  replacement of \<^verbatim>\<open>globalConfig\<close> by a frozen copy with \<^verbatim>\<open>verbose: true\<close>. The result is
  the store, the object the variable \<^verbatim>\<open>globalConfig\<close> refers to afterwards, and the calls
  made.
\<close>

definition report_or_verbose ::
    "env \<Rightarrow> store \<Rightarrow> nat \<Rightarrow> Test list \<Rightarrow> TestRun list \<Rightarrow> TestSelectionConfig \<Rightarrow> nat
     \<Rightarrow> nat option \<Rightarrow> store \<times> nat \<times> event list" where
  "report_or_verbose env st globalConfig allTests testRunData testSelectionConfig
       outputStream printNoTestsMessage =
     (if allTests = [] then
        (case printNoTestsMessage of
           Some hook \<Rightarrow>
             (st, globalConfig,
              [PrintNoTestsMessage outputStream testRunData testSelectionConfig])
         | None \<Rightarrow>
             (st, globalConfig,
              [StreamLog outputStream
                 (getNoTestsFoundMessage env st testRunData testSelectionConfig)]))
      else if length allTests = 1
              \<and> silent (props (globalConfigs st globalConfig)) \<noteq> Some True
              \<and> verbose (props (globalConfigs st globalConfig)) \<noteq> Some False
      then
        (st\<lparr>globalConfigs := (globalConfigs st)
               (next_addr st :=
                  \<lparr>frozen = True,
                   props = (props (globalConfigs st globalConfig))\<lparr>verbose := Some True\<rparr>\<rparr>),
             next_addr := Suc (next_addr st)\<rparr>,
         next_addr st, [])
      else (st, globalConfig, []))"
  for allTests

text \<open>The test list after \<^verbatim>\<open>sequencer.sort\<close>, and \<^verbatim>\<open>argv\<close> as discovery leaves it.\<close>

definition sequenced ::
    "env \<Rightarrow> nat list \<Rightarrow> store \<Rightarrow> nat \<Rightarrow> nat list \<Rightarrow> Argv \<Rightarrow> nat \<Rightarrow> Test list" where
  "sequenced env sched st globalConfig contexts argv outputStream =
     sequencer_sort env
       (allTests (discover env st globalConfig contexts (getTestPathPattern env argv) argv
          outputStream sched))"

definition argv_after ::
    "env \<Rightarrow> nat list \<Rightarrow> store \<Rightarrow> nat \<Rightarrow> nat list \<Rightarrow> Argv \<Rightarrow> nat \<Rightarrow> Argv" where
  "argv_after env sched st globalConfig contexts argv outputStream =
     argv_now (discover env st globalConfig contexts (getTestPathPattern env argv) argv
       outputStream sched)"

text \<open>
  Lines 201 to 234, from the branch on the number of tests to \<^verbatim>\<open>cacheResults\<close>: the store
  and the global configuration the runner is given, its options, the tests, the result it
  returns and the calls made.
\<close>

record execution =
  exec_store :: store
  exec_globalConfig :: nat
  exec_options :: RunOptions
  exec_tests :: "Test list"
  exec_results :: jsval
  exec_events :: "event list"

definition execute ::
    "env \<Rightarrow> nat list \<Rightarrow> store \<Rightarrow> nat \<Rightarrow> nat list \<Rightarrow> Argv \<Rightarrow> nat \<Rightarrow> nat \<Rightarrow> nat
     \<Rightarrow> nat option \<Rightarrow> execution" where
  "execute env sched st globalConfig contexts argv0 outputStream testWatcher startRun
       printNoTestsMessage =
     (let maxWorkers = getMaxWorkers env argv0;
          testSelectionConfig = getTestPathPattern env argv0;
          d = discover env st globalConfig contexts testSelectionConfig argv0 outputStream sched;
          testRunData = testRunData_of (tasks d);
          allTests = sequenced env sched st globalConfig contexts argv0 outputStream;
          argv = argv_after env sched st globalConfig contexts argv0 outputStream
      in case report_or_verbose env st globalConfig allTests testRunData
                testSelectionConfig outputStream printNoTestsMessage of
           (st1, globalConfig, reported) \<Rightarrow>
             (let st2 = setConfig st1 contexts (\<lambda>c. c\<lparr>rootDir := process_cwd env\<rparr>);
                  options =
                    \<lparr>maxWorkers = maxWorkers,
                     pattern = testSelectionConfig,
                     startRun = startRun,
                     testNamePattern = Argv.testNamePattern argv,
                     testPathPattern = formatTestPathPattern testSelectionConfig\<rparr>;
                  results =
                    testRunner_runTests env st2 globalConfig options allTests testWatcher
              in \<lparr>exec_store = st2, exec_globalConfig = globalConfig,
                  exec_options = options, exec_tests = allTests, exec_results = results,
                  exec_events = reported
                    @ [RunTests globalConfig options allTests testWatcher,
                       CacheResults allTests results]\<rparr>))"
  for startRun

record outcome =
  result :: jsval
  final :: store
  trace :: "event list"

text \<open>
  \<open>runJest\<close> with the order \<open>sched\<close> in which the engine's promises are resolved and the
  store \<open>st\<close> it starts in. \<^verbatim>\<open>globalConfig\<close> and the elements of \<^verbatim>\<open>contexts\<close> are
  addresses. Every call to a collaborator is taken to return; a call that throws or a
  promise that is rejected ends the run at that point and is not part of this model.
\<close>

definition runJest ::
    "env \<Rightarrow> nat list \<Rightarrow> store \<Rightarrow> nat \<Rightarrow> nat list \<Rightarrow> Argv \<Rightarrow> nat \<Rightarrow> nat \<Rightarrow> nat
     \<Rightarrow> (jsval \<Rightarrow> jsval) option \<Rightarrow> nat option \<Rightarrow> outcome" where
  "runJest env sched st globalConfig contexts argv0 outputStream testWatcher startRun
       onComplete printNoTestsMessage =
     (let d = discover env st globalConfig contexts (getTestPathPattern env argv0) argv0
                outputStream sched;
          discovered = emitted d @ [SequencerSort (discovery.allTests d)];
          allTests = sequenced env sched st globalConfig contexts argv0 outputStream;
          argv = argv_after env sched st globalConfig contexts argv0 outputStream
      in
        if listTests argv then
          \<lparr>result = Null, final = st,
           trace = discovered
             @ [ConsoleLog (JSON_stringify_strings env (map path allTests))]
             @ (case onComplete of
                  None \<Rightarrow> []
                | Some callback \<Rightarrow> [OnComplete (makeEmptyAggregatedTestResult env)])\<rparr>
        else
          (let x = execute env sched st globalConfig contexts argv0 outputStream testWatcher
                     startRun printNoTestsMessage;
               processed =
                 processResults env (exec_results x)
                   \<lparr>isJSON = json argv,
                    onComplete = onComplete,
                    outputFile = Argv.outputFile argv,
                    testResultsProcessor =
                      GlobalConfig.testResultsProcessor
                        (props (globalConfigs (exec_store x) (exec_globalConfig x)))\<rparr>
           in \<lparr>result = fst processed, final = exec_store x,
               trace = discovered @ exec_events x @ snd processed\<rparr>))"
  for startRun onComplete

subsection \<open>A concrete environment\<close>

text \<open>
  Sample collaborators for evaluating the definitions: chalk with colours switched off,
  a sequencer that keeps the order, a processor and a formatter that return their
  argument, and a store with the global configuration \<open>g\<close> at every address and the
  project configuration of context \<open>c\<close> at address \<open>c\<close> (one root for context 0, two
  roots for the others). The search engine and the test runner
  are left open.
\<close>

fun plain :: "jsval \<Rightarrow> string" where
  "plain (Str s) = s"
| "plain (Arr vs) = join '','' (map plain vs)"
| "plain v = []"

text \<open>\<^verbatim>\<open>JSON.stringify\<close>, only as far as the sample results need it: an object with one
  numeric property.\<close>

fun sample_json :: "jsval \<Rightarrow> string" where
  "sample_json (Obj [(k, Num n)]) = ''{'' @ dq @ k @ dq @ '':'' @ string_of_nat (nat n) @ ''}''"
| "sample_json v = ''null''"

definition sample_pattern :: "Argv \<Rightarrow> TestSelectionConfig" where
  "sample_pattern a =
     \<lparr>input = Some [], testPathPattern = Some [], shouldTreatInputAsPattern = False,
      onlyChanged = (map_of (more_args a) ''onlyChanged'' = Some (Bool True)),
      watch = (map_of (more_args a) ''watch'' = Some (Bool True))\<rparr>"

definition sample_env ::
    "(nat \<Rightarrow> TestSelectionConfig \<Rightarrow> SearchResult) \<Rightarrow> (Test list \<Rightarrow> jsval) \<Rightarrow> env" where
  "sample_env search run =
     \<lparr>getMaxWorkers = (\<lambda>a. 1),
      getTestPathPattern = sample_pattern,
      updateArgv = (\<lambda>a mode opts. a\<lparr>more_args := (mode, Bool True) # opts\<rparr>),
      searchSource_getTestPaths = (\<lambda>st. search),
      sequencer_sort = (\<lambda>ts. ts),
      testRunner_runTests = (\<lambda>st g opts ts w. run ts),
      require = (\<lambda>f r. r),
      formatTestResults = (\<lambda>r. r),
      JSON_stringify = sample_json,
      JSON_quote = (\<lambda>s. dq @ s @ dq),
      path_resolve = (\<lambda>dir file. dir @ ''/'' @ file),
      path_relative = (\<lambda>dir file. drop (Suc (length dir)) file),
      process_cwd = ''/work'',
      makeEmptyAggregatedTestResult = Obj [(''numTotalTests'', Num 0)],
      chalk_bold = plain,
      chalk_dim = plain,
      chalk_yellow = plain\<rparr>"

definition sample_store :: "GlobalConfig \<Rightarrow> store" where
  "sample_store g =
     \<lparr>globalConfigs = (\<lambda>a. \<lparr>frozen = True, props = g\<rparr>),
      configs = (\<lambda>a. \<lparr>frozen = True,
                       props = (if a = 0
                                then \<lparr>rootDir = ''/work/p'', roots = [''/work/p''], other = []\<rparr>
                                else \<lparr>rootDir = ''/work/q'',
                                      roots = [''/work/q/src'', ''/work/q/lib''],
                                      other = [(''testRegex'', Str ''spec'')]\<rparr>)\<rparr>),
      contextObjs = (\<lambda>c. \<lparr>config = c\<rparr>),
      next_addr = 8\<rparr>"

definition sample_globalConfig :: GlobalConfig where
  "sample_globalConfig =
     \<lparr>watch = False, silent = None, verbose = None, testResultsProcessor = None, other = []\<rparr>"

definition no_matches :: SearchResult where
  "no_matches = \<lparr>tests = [], stats = None, total_n = None, noSCM = False\<rparr>"

definition sample_argv :: Argv where
  "sample_argv =
     \<lparr>listTests = False, json = False, outputFile = None, testNamePattern = None,
      more_args = []\<rparr>"

text \<open>A search engine that finds one test file per context (\<^verbatim>\<open>a.test.js\<close> for context 0,
  \<^verbatim>\<open>b.test.js\<close> for the others), one that additionally has no source control to ask for
  changed files, and a runner that reports how many tests it was given.\<close>

definition found_in :: "nat \<Rightarrow> SearchResult" where
  "found_in c =
     \<lparr>tests = [\<lparr>test_context = c, path = (if c = 0 then ''a.test.js'' else ''b.test.js'')\<rparr>],
      stats = None, total_n = Some 1, noSCM = False\<rparr>"

definition search_all :: "nat \<Rightarrow> TestSelectionConfig \<Rightarrow> SearchResult" where
  "search_all c p = found_in c"

definition search_without_SCM :: "nat \<Rightarrow> TestSelectionConfig \<Rightarrow> SearchResult" where
  "search_without_SCM c p = (if onlyChanged p then no_matches\<lparr>noSCM := True\<rparr> else found_in c)"

text \<open>Two projects of which only the second is under source control: context 0 has no
  source control to ask, context 1 finds its test.\<close>

definition search_mixed :: "nat \<Rightarrow> TestSelectionConfig \<Rightarrow> SearchResult" where
  "search_mixed c p =
     (if c = 0 \<and> onlyChanged p then no_matches\<lparr>noSCM := True\<rparr> else found_in c)"

definition ran :: "Test list \<Rightarrow> jsval" where
  "ran ts = Obj [(''numTotalTests'', Num (int (length ts)))]"

subsection \<open>Notions used in the statements and the proofs\<close>

text \<open>How many more promises a task may wait for, the tests a settled task has
  contributed, the events discovery can emit, the events of post-processing, and the
  invariant of discovery: \<open>order\<close> lists the settled positions in the order in which they
  settled, and \<^verbatim>\<open>allTests\<close> is the concatenation of their tests in that order.\<close>

fun waits :: "task \<Rightarrow> nat" where
  "waits AwaitFirst = 2"
| "waits (AwaitSecond p) = 1"
| "waits (Settled found) = 0"

fun task_tests :: "task \<Rightarrow> Test list" where
  "task_tests (Settled found) = tests found"
| "task_tests t = []"

definition quiet :: "event list \<Rightarrow> bool" where
  "quiet evs = (\<forall>e \<in> set evs. is_GetTestPaths e \<or> is_StreamLog e)"

definition postprocessing :: "event \<Rightarrow> bool" where
  "postprocessing e =
     (is_ResultsProcessor e \<or> is_StdoutWrite e \<or> is_WriteFileSync e \<or> is_OnComplete e)"

definition completed :: "discovery \<Rightarrow> nat list \<Rightarrow> bool" where
  "completed d order =
     (distinct order
      \<and> set order = {i. i < length (tasks d) \<and> waits (snd (tasks d ! i)) = 0}
      \<and> allTests d = concat (map (\<lambda>i. task_tests (snd (tasks d ! i))) order))"

text \<open>
  The condition of lines 111 to 113 under which \<^verbatim>\<open>getTestPaths\<close> searches a second time for
  a context: the first answer has no tests, the pattern selects only changed files, the
  engine found no source control, and the global configuration is in watch mode.
\<close>

definition falls_back :: "env \<Rightarrow> store \<Rightarrow> nat \<Rightarrow> TestSelectionConfig \<Rightarrow> nat \<Rightarrow> bool" where
  "falls_back env st globalConfig pattern context =
     (tests (searchSource_getTestPaths env st context pattern) = []
      \<and> onlyChanged pattern
      \<and> noSCM (searchSource_getTestPaths env st context pattern)
      \<and> GlobalConfig.watch (props (globalConfigs st globalConfig)))"
  for pattern

text \<open>
  The order in which the discoveries complete. Running the resumptions \<open>is\<close> one after
  the other from \<open>d\<close>, a position is recorded at the step at which its task goes from
  waiting to settled, which is the step at which the task appends its tests to
  \<^verbatim>\<open>allTests\<close>. \<open>completion_order\<close> is this list for the resumptions and the start of
  \<open>discover\<close>.
\<close>

fun completion_order_from ::
    "(nat \<Rightarrow> discovery \<Rightarrow> discovery) \<Rightarrow> nat list \<Rightarrow> discovery \<Rightarrow> nat list" where
  "completion_order_from step [] d = []"
| "completion_order_from step (i # is) d =
     (if i < length (tasks d) \<and> waits (snd (tasks d ! i)) \<noteq> 0
         \<and> waits (snd (tasks (step i d) ! i)) = 0
      then i # completion_order_from step is (step i d)
      else completion_order_from step is (step i d))"

definition completion_order ::
    "env \<Rightarrow> store \<Rightarrow> nat \<Rightarrow> nat list \<Rightarrow> TestSelectionConfig \<Rightarrow> Argv \<Rightarrow> nat \<Rightarrow> nat list
     \<Rightarrow> nat list" where
  "completion_order env st globalConfig contexts pattern argv outputStream sched =
     completion_order_from (resume_task env st globalConfig pattern outputStream)
       (sched @ [0..<length contexts] @ [0..<length contexts])
       \<lparr>tasks = map (\<lambda>context. (context, AwaitFirst)) contexts,
        argv_now = argv,
        allTests = [],
        emitted = map (\<lambda>context. GetTestPaths context pattern) contexts\<rparr>"
  for pattern

section \<open>Lemmas\<close>

text \<open>The definitions to unfold when a run or a message is evaluated on the sample
  environment.\<close>

lemmas sample_defs =
  sample_env_def sample_store_def sample_globalConfig_def sample_argv_def sample_pattern_def
  search_all_def search_without_SCM_def search_mixed_def found_in_def no_matches_def ran_def

lemmas run_defs =
  runJest_def execute_def discover_def resume_task_def getTestPaths_resume_def
  report_or_verbose_def processResults_def apply_processor_def sequenced_def argv_after_def
  formatTestPathPattern_def JSON_stringify_strings_def or_empty_def Let_def

lemmas message_defs =
  getNoTestsFoundMessage_def individualResult_def stat_line_def config_get_def pluralize_def
  formatTestPathPattern_def or_empty_def string_of_nat.simps digit_def Let_def

lemma getTestPaths_resume_quiet:
  fixes pattern :: TestSelectionConfig
  assumes "getTestPaths_resume env st g c pattern a out data = (s, a', evs)"
  shows "quiet evs"
  using assms
  by (auto simp: getTestPaths_resume_def quiet_def Let_def split: if_splits)

lemma resume_task_cases:
  fixes p :: TestSelectionConfig
  obtains (idle) "resume_task env st g p out i d = d"
      "i < length (tasks d) \<Longrightarrow> waits (snd (tasks d ! i)) = 0"
  | (again) c p' a' evs where "i < length (tasks d)" "tasks d ! i = (c, AwaitFirst)"
      "resume_task env st g p out i d =
         d\<lparr>tasks := (tasks d)[i := (c, AwaitSecond p')], argv_now := a',
           emitted := emitted d @ evs\<rparr>" "quiet evs"
  | (settle) c t found a' evs where "i < length (tasks d)" "tasks d ! i = (c, t)" "waits t \<noteq> 0"
      "resume_task env st g p out i d =
         d\<lparr>tasks := (tasks d)[i := (c, Settled found)], argv_now := a',
           allTests := allTests d @ tests found, emitted := emitted d @ evs\<rparr>" "quiet evs"
proof (cases "i < length (tasks d)")
  case False
  show ?thesis
    by (rule idle) (use False in \<open>simp_all add: resume_task_def\<close>)
next
  case len: True
  obtain c t where ct: "tasks d ! i = (c, t)" by (cases "tasks d ! i")
  show ?thesis
  proof (cases t)
    case AwaitFirst
    obtain s a' evs where r: "getTestPaths_resume env st g c p (argv_now d) out
        (searchSource_getTestPaths env st c p) = (s, a', evs)"
      by (cases "getTestPaths_resume env st g c p (argv_now d) out
        (searchSource_getTestPaths env st c p)")
    have q: "quiet evs" using r by (rule getTestPaths_resume_quiet)
    show ?thesis
    proof (cases s)
      case (Await p')
      show ?thesis
        by (rule again[where c=c and p'=p' and a'=a' and evs=evs]) (use len ct AwaitFirst r Await q in \<open>simp_all add: resume_task_def\<close>)
    next
      case (Return found)
      show ?thesis
        by (rule settle[where c=c and t=t and found=found and a'=a' and evs=evs]) (use len ct AwaitFirst r Return q in \<open>simp_all add: resume_task_def\<close>)
    qed
  next
    case (AwaitSecond p')
    show ?thesis
      by (rule settle[where c=c and t=t and found="searchSource_getTestPaths env st c p'" and a'="argv_now d" and evs="[]"])
        (use len ct AwaitSecond in \<open>simp_all add: resume_task_def quiet_def Let_def\<close>)
  next
    case (Settled found)
    have "resume_task env st g p out i d = d"
      using len ct Settled by (simp add: resume_task_def)
    then show ?thesis by (rule idle) (simp add: ct Settled)
  qed
qed

lemma resume_task_length [simp]:
  fixes p :: TestSelectionConfig
  shows "length (tasks (resume_task env st g p out i d)) = length (tasks d)"
  by (cases rule: resume_task_cases[of env st g p out i d]) simp_all

lemma resume_task_contexts [simp]:
  fixes p :: TestSelectionConfig
  shows "map fst (tasks (resume_task env st g p out i d)) = map fst (tasks d)"
proof (cases rule: resume_task_cases[of env st g p out i d])
  case idle
  then show ?thesis by simp
next
  case (again c p' a' evs)
  then have "(map fst (tasks d))[i := c] = map fst (tasks d)"
    by (simp add: list_update_same_conv)
  with again show ?thesis by (simp add: map_update)
next
  case (settle c t found a' evs)
  then have "(map fst (tasks d))[i := c] = map fst (tasks d)"
    by (simp add: list_update_same_conv)
  with settle show ?thesis by (simp add: map_update)
qed

lemma resume_task_quiet:
  fixes p :: TestSelectionConfig
  assumes "quiet (emitted d)"
  shows "quiet (emitted (resume_task env st g p out i d))"
  using assms
  by (cases rule: resume_task_cases[of env st g p out i d]) (auto simp: quiet_def)

lemma resume_task_waits_le:
  fixes p :: TestSelectionConfig
  assumes "j < length (tasks d)"
  shows "waits (snd (tasks (resume_task env st g p out i d) ! j)) \<le> waits (snd (tasks d ! j))"
proof (cases rule: resume_task_cases[of env st g p out i d])
  case idle
  then show ?thesis by simp
next
  case (again c p' a' evs)
  then show ?thesis using assms by (cases "j = i") simp_all
next
  case (settle c t found a' evs)
  then show ?thesis using assms by (cases "j = i") simp_all
qed

lemma resume_task_waits_dec:
  fixes p :: TestSelectionConfig
  assumes "i < length (tasks d)"
  shows "waits (snd (tasks (resume_task env st g p out i d) ! i)) \<le> waits (snd (tasks d ! i)) - 1"
proof (cases rule: resume_task_cases[of env st g p out i d])
  case idle
  then show ?thesis using assms by simp
next
  case (again c p' a' evs)
  then show ?thesis by simp
next
  case (settle c t found a' evs)
  then show ?thesis by simp
qed

lemma completed_update:
  assumes c: "completed d order" and i: "i < length (tasks d)"
    and w: "waits (snd (tasks d ! i)) \<noteq> 0"
    and ts: "tasks d' = (tasks d)[i := (c, t)]"
    and al: "allTests d' = allTests d @ task_tests t"
  shows "completed d' (if waits t = 0 then order @ [i] else order)"
proof -
  have dist: "distinct order"
    and old: "set order = {j. j < length (tasks d) \<and> waits (snd (tasks d ! j)) = 0}"
    and al0: "allTests d = concat (map (\<lambda>j. task_tests (snd (tasks d ! j))) order)"
    using c unfolding completed_def by simp_all
  have ni: "i \<notin> set order" using old w by simp
  have here: "tasks d' ! i = (c, t)" using ts i by simp
  have len: "length (tasks d') = length (tasks d)" using ts by simp
  have other: "tasks d' ! j = tasks d ! j" if "j \<noteq> i" for j
    using that ts by simp
  have same: "tasks d' ! j = tasks d ! j" if "j \<in> set order" for j
    using that ni other[of j] by (cases "j = i") simp_all
  have "map (\<lambda>j. task_tests (snd (tasks d' ! j))) order
      = map (\<lambda>j. task_tests (snd (tasks d ! j))) order"
    by (rule map_cong[OF refl]) (simp only: same)
  then have keep: "concat (map (\<lambda>j. task_tests (snd (tasks d' ! j))) order) = allTests d"
    using al0 by (simp only:)
  have settled: "(j < length (tasks d') \<and> waits (snd (tasks d' ! j)) = 0)
      = (j \<in> set order \<or> (j = i \<and> waits t = 0))" for j
  proof (cases "j = i")
    case True
    then show ?thesis using here ni i len by simp
  next
    case False
    then show ?thesis using other[OF False] len old by simp
  qed
  show ?thesis
  proof (cases "waits t = 0")
    case True
    have "set (order @ [i]) = {j. j \<in> set order \<or> (j = i \<and> waits t = 0)}"
      using True by auto
    then have s1: "set (order @ [i]) = {j. j < length (tasks d') \<and> waits (snd (tasks d' ! j)) = 0}"
      by (simp only: settled)
    have d1: "distinct (order @ [i])" using dist ni by simp
    have a1: "allTests d' = concat (map (\<lambda>j. task_tests (snd (tasks d' ! j))) (order @ [i]))"
      using keep al here by simp
    show ?thesis unfolding completed_def if_P[OF True]
      by (intro conjI) (fact d1, fact s1, fact a1)
  next
    case False
    have "set order = {j. j \<in> set order \<or> (j = i \<and> waits t = 0)}"
      using False by auto
    then have s1: "set order = {j. j < length (tasks d') \<and> waits (snd (tasks d' ! j)) = 0}"
      by (simp only: settled)
    have "task_tests t = []" using False by (cases t) simp_all
    then have a1: "allTests d' = concat (map (\<lambda>j. task_tests (snd (tasks d' ! j))) order)"
      using keep al by simp
    show ?thesis unfolding completed_def if_not_P[OF False]
      by (intro conjI) (fact dist, fact s1, fact a1)
  qed
qed

lemma resume_task_completed:
  fixes p :: TestSelectionConfig
  assumes "completed d order"
  shows "\<exists>order'. completed (resume_task env st g p out i d) order'"
proof (cases rule: resume_task_cases[of env st g p out i d])
  case idle
  then have "completed (resume_task env st g p out i d) order" using assms by simp
  then show ?thesis ..
next
  case (again c p' a' evs)
  have "completed (resume_task env st g p out i d)
          (if waits (AwaitSecond p') = 0 then order @ [i] else order)"
    by (rule completed_update[OF assms again(1), where c=c]) (simp_all add: again)
  then show ?thesis ..
next
  case (settle c t found a' evs)
  have "completed (resume_task env st g p out i d)
          (if waits (Settled found) = 0 then order @ [i] else order)"
    by (rule completed_update[OF assms settle(1), where c=c]) (simp_all add: settle)
  then show ?thesis ..
qed

lemma fold_resume_length [simp]:
  fixes p :: TestSelectionConfig
  shows "length (tasks (fold (resume_task env st g p out) is d)) = length (tasks d)"
  by (induction "is" arbitrary: d) simp_all

lemma fold_resume_contexts [simp]:
  fixes p :: TestSelectionConfig
  shows "map fst (tasks (fold (resume_task env st g p out) is d)) = map fst (tasks d)"
  by (induction "is" arbitrary: d) simp_all

lemma fold_resume_quiet:
  fixes p :: TestSelectionConfig
  assumes "quiet (emitted d)"
  shows "quiet (emitted (fold (resume_task env st g p out) is d))"
  using assms by (induction "is" arbitrary: d) (simp_all add: resume_task_quiet)

lemma fold_resume_completed:
  fixes p :: TestSelectionConfig
  assumes "\<exists>order. completed d order"
  shows "\<exists>order. completed (fold (resume_task env st g p out) is d) order"
  using assms
proof (induction "is" arbitrary: d)
  case Nil
  then show ?case by simp
next
  case (Cons i "is")
  from Cons.prems obtain order where "completed d order" ..
  then have "\<exists>order'. completed (resume_task env st g p out i d) order'"
    by (rule resume_task_completed)
  then show ?case using Cons.IH by simp
qed

lemma fold_resume_waits_le:
  fixes p :: TestSelectionConfig
  assumes "j < length (tasks d)"
  shows "waits (snd (tasks (fold (resume_task env st g p out) is d) ! j))
           \<le> waits (snd (tasks d ! j))"
  using assms
proof (induction "is" arbitrary: d)
  case Nil
  then show ?case by simp
next
  case (Cons i "is")
  have "waits (snd (tasks (fold (resume_task env st g p out) is (resume_task env st g p out i d)) ! j))
          \<le> waits (snd (tasks (resume_task env st g p out i d) ! j))"
    using Cons.prems by (intro Cons.IH) simp
  also have "\<dots> \<le> waits (snd (tasks d ! j))"
    using Cons.prems by (rule resume_task_waits_le)
  finally show ?case by simp
qed

lemma fold_resume_waits_dec:
  fixes p :: TestSelectionConfig
  assumes "j < length (tasks d)" and "j \<in> set is"
  shows "waits (snd (tasks (fold (resume_task env st g p out) is d) ! j))
           \<le> waits (snd (tasks d ! j)) - 1"
  using assms
proof (induction "is" arbitrary: d)
  case Nil
  then show ?case by simp
next
  case (Cons i "is")
  let ?d = "resume_task env st g p out i d"
  have len: "j < length (tasks ?d)" using Cons.prems by simp
  show ?case
  proof (cases "j = i")
    case True
    have "waits (snd (tasks (fold (resume_task env st g p out) is ?d) ! j))
            \<le> waits (snd (tasks ?d ! j))"
      using len by (rule fold_resume_waits_le)
    also have "\<dots> \<le> waits (snd (tasks d ! j)) - 1"
      using Cons.prems(1) unfolding True by (rule resume_task_waits_dec)
    finally show ?thesis by simp
  next
    case False
    then have "j \<in> set is" using Cons.prems by simp
    with len have "waits (snd (tasks (fold (resume_task env st g p out) is ?d) ! j))
            \<le> waits (snd (tasks ?d ! j)) - 1"
      by (rule Cons.IH)
    also have "\<dots> \<le> waits (snd (tasks d ! j)) - 1"
      using resume_task_waits_le[OF Cons.prems(1), of env st g p out i] by simp
    finally show ?thesis by simp
  qed
qed

lemma waits_le_2: "waits t \<le> 2"
  by (cases t) simp_all

lemma testRunData_of_settled:
  assumes "\<forall>x \<in> set ts. waits (snd x) = 0"
  shows "map run_context (testRunData_of ts) = map fst ts
       \<and> map (\<lambda>r. tests (matches r)) (testRunData_of ts) = map (\<lambda>x. task_tests (snd x)) ts"
  using assms
proof (induction ts)
  case Nil
  then show ?case by simp
next
  case (Cons x ts)
  obtain c t where x: "x = (c, t)" by (cases x)
  with Cons.prems have "waits t = 0" by simp
  then obtain found where "t = Settled found" by (cases t) simp_all
  with x Cons show ?case by simp
qed

lemma discover_settles:
  fixes p :: TestSelectionConfig and env st g contexts argv out sched
  defines "d \<equiv> discover env st g contexts p argv out sched"
  shows "length (tasks d) = length contexts"
    and "map fst (tasks d) = contexts"
    and "j < length contexts \<Longrightarrow> waits (snd (tasks d ! j)) = 0"
    and "quiet (emitted d)"
    and "\<exists>order. completed d order"
proof -
  let ?n = "length contexts"
  let ?run = "fold (resume_task env st g p out)"
  let ?init = "\<lparr>tasks = map (\<lambda>context. (context, AwaitFirst)) contexts, argv_now = argv,
              allTests = [], emitted = map (\<lambda>context. GetTestPaths context p) contexts\<rparr>"
  let ?afterSched = "?run sched ?init"
  let ?afterFirst = "?run [0..<?n] ?afterSched"
  have d: "d = ?run [0..<?n] ?afterFirst"
    by (simp add: d_def discover_def)
  show "length (tasks d) = length contexts" by (simp add: d)
  show "map fst (tasks d) = contexts" by (simp add: d comp_def)
  have "quiet (emitted ?init)" by (simp add: quiet_def)
  then show "quiet (emitted d)" unfolding d by (intro fold_resume_quiet)
  have "completed ?init []" by (simp add: completed_def)
  then have "\<exists>order. completed ?init order" ..
  then show "\<exists>order. completed d order" unfolding d by (intro fold_resume_completed)
  show "waits (snd (tasks d ! j)) = 0" if j: "j < length contexts"
  proof -
    have "waits (snd (tasks ?afterSched ! j)) \<le> 2" by (rule waits_le_2)
    moreover have "waits (snd (tasks ?afterFirst ! j)) \<le> waits (snd (tasks ?afterSched ! j)) - 1"
      using j by (intro fold_resume_waits_dec) simp_all
    moreover have "waits (snd (tasks d ! j)) \<le> waits (snd (tasks ?afterFirst ! j)) - 1"
      unfolding d using j by (intro fold_resume_waits_dec) simp_all
    ultimately show ?thesis by linarith
  qed
qed

lemma discover_testRunData:
  fixes p :: TestSelectionConfig and env st g contexts argv out sched
  defines "d \<equiv> discover env st g contexts p argv out sched"
  shows "map run_context (testRunData_of (tasks d)) = contexts"
    and "map (\<lambda>r. tests (matches r)) (testRunData_of (tasks d)) = map (\<lambda>x. task_tests (snd x)) (tasks d)"
proof -
  have len: "length (tasks d) = length contexts"
    unfolding d_def by (rule discover_settles)
  have "\<forall>x \<in> set (tasks d). waits (snd x) = 0"
  proof
    fix x assume "x \<in> set (tasks d)"
    then obtain j where "j < length (tasks d)" "x = tasks d ! j"
      by (auto simp: in_set_conv_nth)
    then show "waits (snd x) = 0"
      using discover_settles(3)[of j contexts env st g p argv out sched] len by (simp add: d_def)
  qed
  then have *: "map run_context (testRunData_of (tasks d)) = map fst (tasks d)
       \<and> map (\<lambda>r. tests (matches r)) (testRunData_of (tasks d)) = map (\<lambda>x. task_tests (snd x)) (tasks d)"
    by (rule testRunData_of_settled)
  show "map run_context (testRunData_of (tasks d)) = contexts"
    using * discover_settles(2)[of env st g contexts p argv out sched] by (simp add: d_def)
  show "map (\<lambda>r. tests (matches r)) (testRunData_of (tasks d)) = map (\<lambda>x. task_tests (snd x)) (tasks d)"
    using * by simp
qed

lemma mset_concat_reorder:
  assumes "mset order = mset [0..<length xs]"
  shows "mset (concat (map (\<lambda>i. f (xs ! i)) order)) = mset (concat (map f xs))"
proof -
  have "mset (concat (map (\<lambda>i. f (xs ! i)) order))
      = sum_mset (image_mset (\<lambda>i. mset (f (xs ! i))) (mset order))"
    by (simp add: mset_concat comp_def flip: sum_mset_sum_list)
  also have "\<dots> = sum_mset (image_mset (\<lambda>i. mset (f (xs ! i))) (mset [0..<length xs]))"
    by (simp only: assms)
  also have "\<dots> = mset (concat (map (\<lambda>i. f (xs ! i)) [0..<length xs]))"
    by (simp add: mset_concat comp_def flip: sum_mset_sum_list)
  also have "map (\<lambda>i. f (xs ! i)) [0..<length xs] = map f xs"
    by (simp add: map_nth flip: map_map[unfolded comp_def])
  finally show ?thesis .
qed

lemma resume_task_idle:
  fixes p :: TestSelectionConfig
  assumes "i < length (tasks d) \<Longrightarrow> waits (snd (tasks d ! i)) = 0"
  shows "resume_task env st g p out i d = d"
proof (cases rule: resume_task_cases[of env st g p out i d])
  case idle
  then show ?thesis by simp
next
  case (again c p' a' evs)
  then show ?thesis using assms by simp
next
  case (settle c t found a' evs)
  then show ?thesis using assms by simp
qed

lemma fold_resume_idle:
  fixes p :: TestSelectionConfig
  assumes "\<And>i. i < length (tasks d) \<Longrightarrow> waits (snd (tasks d ! i)) = 0"
  shows "fold (resume_task env st g p out) is d = d"
proof (induction "is")
  case Nil
  show ?case by simp
next
  case (Cons i "is")
  have "resume_task env st g p out i d = d"
    by (rule resume_task_idle) (rule assms)
  with Cons show ?case by simp
qed

text \<open>The invariant with the order made explicit: the settled positions are listed as
  \<open>completion_order_from\<close> records them.\<close>

lemma resume_task_completed_order:
  fixes p :: TestSelectionConfig
  assumes "completed d order"
  shows "completed (resume_task env st g p out i d)
           (order @ completion_order_from (resume_task env st g p out) [i] d)"
proof (cases rule: resume_task_cases[of env st g p out i d])
  case idle
  then show ?thesis using assms by auto
next
  case (again c p' a' evs)
  have "completed (resume_task env st g p out i d)
          (if waits (AwaitSecond p') = 0 then order @ [i] else order)"
    by (rule completed_update[OF assms again(1), where c=c]) (simp_all add: again)
  then show ?thesis using again by simp
next
  case (settle c t found a' evs)
  have "completed (resume_task env st g p out i d)
          (if waits (Settled found) = 0 then order @ [i] else order)"
    by (rule completed_update[OF assms settle(1), where c=c]) (simp_all add: settle)
  then show ?thesis using settle by simp
qed

lemma completion_order_from_append:
  "completion_order_from f (xs @ ys) d
     = completion_order_from f xs d @ completion_order_from f ys (fold f xs d)"
  by (induction xs arbitrary: d) simp_all

lemma fold_resume_completed_order:
  fixes p :: TestSelectionConfig
  assumes "completed d order"
  shows "completed (fold (resume_task env st g p out) is d)
           (order @ completion_order_from (resume_task env st g p out) is d)"
  using assms
proof (induction "is" arbitrary: d order)
  case Nil
  then show ?case by simp
next
  case (Cons i "is")
  let ?f = "resume_task env st g p out"
  have "completed (?f i d) (order @ completion_order_from ?f [i] d)"
    using Cons.prems by (rule resume_task_completed_order)
  then have "completed (fold ?f is (?f i d))
      ((order @ completion_order_from ?f [i] d) @ completion_order_from ?f is (?f i d))"
    by (rule Cons.IH)
  moreover have "completion_order_from ?f (i # is) d
      = completion_order_from ?f [i] d @ completion_order_from ?f is (?f i d)"
    using completion_order_from_append[of ?f "[i]" "is" d] by simp
  ultimately show ?case by simp
qed

lemma discover_completed:
  fixes p :: TestSelectionConfig
  shows "completed (discover env st g contexts p argv out sched)
           (completion_order env st g contexts p argv out sched)"
proof -
  let ?init = "\<lparr>tasks = map (\<lambda>context. (context, AwaitFirst)) contexts, argv_now = argv,
              allTests = [], emitted = map (\<lambda>context. GetTestPaths context p) contexts\<rparr>"
  have "completed ?init []" by (simp add: completed_def)
  then have "completed (fold (resume_task env st g p out)
        (sched @ [0..<length contexts] @ [0..<length contexts]) ?init)
      ([] @ completion_order_from (resume_task env st g p out)
        (sched @ [0..<length contexts] @ [0..<length contexts]) ?init)"
    by (rule fold_resume_completed_order)
  then show ?thesis
    by (simp add: discover_def completion_order_def)
qed

lemma discover_completion_order:
  fixes p :: TestSelectionConfig and env st g contexts argv out sched
  defines "d \<equiv> discover env st g contexts p argv out sched"
  defines "order \<equiv> completion_order env st g contexts p argv out sched"
  shows "mset order = mset [0..<length contexts]"
    and "allTests d = concat (map (\<lambda>i. tests (matches (testRunData_of (tasks d) ! i))) order)"
proof -
  let ?trd = "testRunData_of (tasks d)"
  have len: "length (tasks d) = length contexts"
    unfolding d_def by (rule discover_settles)
  have c: "completed d order"
    unfolding d_def order_def by (rule discover_completed)
  have dist: "distinct order"
    and old: "set order = {j. j < length (tasks d) \<and> waits (snd (tasks d ! j)) = 0}"
    and al0: "allTests d = concat (map (\<lambda>j. task_tests (snd (tasks d ! j))) order)"
    using c unfolding completed_def by simp_all
  have all0: "waits (snd (tasks d ! j)) = 0" if "j < length contexts" for j
    using that discover_settles(3)[of j contexts env st g p argv out sched] by (simp add: d_def)
  have "(j < length contexts \<and> waits (snd (tasks d ! j)) = 0) = (j < length contexts)" for j
    using all0[of j] by (cases "j < length contexts") simp_all
  then have "set order = {j. j < length contexts}"
    unfolding old len by (simp only:)
  then have "set order = set [0..<length contexts]" by (simp add: set_eq_iff)
  then show "mset order = mset [0..<length contexts]"
    by (rule iffD1[OF set_eq_iff_mset_eq_distinct[OF dist distinct_upt]])
  have maps: "map (\<lambda>r. tests (matches r)) ?trd = map (\<lambda>x. task_tests (snd x)) (tasks d)"
    unfolding d_def by (rule discover_testRunData)
  have lt: "length ?trd = length (tasks d)"
    using arg_cong[OF maps, of length] by simp
  have "tests (matches (?trd ! j)) = task_tests (snd (tasks d ! j))" if "j \<in> set order" for j
  proof -
    have j: "j < length (tasks d)" using that old by simp
    have "tests (matches (?trd ! j)) = map (\<lambda>r. tests (matches r)) ?trd ! j"
      using j lt by simp
    also have "\<dots> = task_tests (snd (tasks d ! j))"
      unfolding maps using j by simp
    finally show ?thesis .
  qed
  then have "map (\<lambda>j. tests (matches (?trd ! j))) order = map (\<lambda>j. task_tests (snd (tasks d ! j))) order"
    by (intro map_cong[OF refl])
  then show "allTests d = concat (map (\<lambda>i. tests (matches (?trd ! i))) order)"
    using al0 by (simp only:)
qed

text \<open>When no context searches a second time and every promise is resolved as soon as
  it is made, the first round settles the contexts one after the other.\<close>

lemma resume_task_no_fallback:
  fixes p :: TestSelectionConfig
  assumes nf: "\<not> falls_back env st g p c"
    and i: "i < length (tasks d)" and t: "tasks d ! i = (c, AwaitFirst)"
  shows "tasks (resume_task env st g p out i d)
           = (tasks d)[i := (c, Settled (searchSource_getTestPaths env st c p))]"
    and "allTests (resume_task env st g p out i d)
           = allTests d @ tests (searchSource_getTestPaths env st c p)"
  using assms by (auto simp: resume_task_def getTestPaths_resume_def falls_back_def)

lemma completion_order_from_idle:
  fixes p :: TestSelectionConfig
  assumes "\<And>i. i < length (tasks d) \<Longrightarrow> waits (snd (tasks d ! i)) = 0"
  shows "completion_order_from (resume_task env st g p out) is d = []"
proof (induction "is")
  case Nil
  show ?case by simp
next
  case (Cons i "is")
  have "resume_task env st g p out i d = d"
    by (rule resume_task_idle) (rule assms)
  with Cons assms[of i] show ?case by simp
qed

lemma first_round_no_fallback:
  fixes p :: TestSelectionConfig
  assumes nf: "\<forall>c \<in> set contexts. \<not> falls_back env st g p c"
    and k: "k \<le> length contexts"
  shows "tasks (fold (resume_task env st g p out) [0..<k]
            \<lparr>tasks = map (\<lambda>context. (context, AwaitFirst)) contexts, argv_now = argv,
             allTests = [], emitted = evs\<rparr>)
           = map (\<lambda>c. (c, Settled (searchSource_getTestPaths env st c p))) (take k contexts)
             @ map (\<lambda>c. (c, AwaitFirst)) (drop k contexts)
       \<and> allTests (fold (resume_task env st g p out) [0..<k]
            \<lparr>tasks = map (\<lambda>context. (context, AwaitFirst)) contexts, argv_now = argv,
             allTests = [], emitted = evs\<rparr>)
           = concat (map (\<lambda>c. tests (searchSource_getTestPaths env st c p)) (take k contexts))
       \<and> completion_order_from (resume_task env st g p out) [0..<k]
            \<lparr>tasks = map (\<lambda>context. (context, AwaitFirst)) contexts, argv_now = argv,
             allTests = [], emitted = evs\<rparr>
           = [0..<k]"
  using k
proof (induction k)
  case 0
  show ?case by simp
next
  case (Suc k)
  let ?f = "resume_task env st g p out"
  let ?init = "\<lparr>tasks = map (\<lambda>context. (context, AwaitFirst)) contexts, argv_now = argv,
             allTests = [], emitted = evs\<rparr>"
  let ?cur = "fold ?f [0..<k] ?init"
  let ?S = "\<lambda>c. (c, Settled (searchSource_getTestPaths env st c p))"
  have k: "k < length contexts" using Suc.prems by simp
  have ih: "tasks ?cur = map ?S (take k contexts) @ map (\<lambda>c. (c, AwaitFirst)) (drop k contexts)"
    and ih2: "allTests ?cur = concat (map (\<lambda>c. tests (searchSource_getTestPaths env st c p)) (take k contexts))"
    and ih3: "completion_order_from ?f [0..<k] ?init = [0..<k]"
    using Suc.IH k by simp_all
  have len: "k < length (tasks ?cur)" using k by simp
  have at: "tasks ?cur ! k = (contexts ! k, AwaitFirst)"
    unfolding ih using k by (simp add: nth_append)
  have nfk: "\<not> falls_back env st g p (contexts ! k)"
    using nf k by simp
  have upt: "[0..<Suc k] = [0..<k] @ [k]" by simp
  have step: "fold ?f [0..<Suc k] ?init = ?f k ?cur"
    by (simp only: upt fold_append fold_simps comp_apply id_apply)
  have drop: "drop k contexts = contexts ! k # drop (Suc k) contexts"
    using k by (simp add: Cons_nth_drop_Suc)
  have new: "tasks (?f k ?cur) = (tasks ?cur)[k := ?S (contexts ! k)]"
    using nfk len at by (rule resume_task_no_fallback)
  also have "\<dots> = map ?S (take k contexts) @ (?S (contexts ! k) # map (\<lambda>c. (c, AwaitFirst)) (drop (Suc k) contexts))"
    unfolding ih using k by (simp add: list_update_append drop)
  also have "\<dots> = map ?S (take (Suc k) contexts) @ map (\<lambda>c. (c, AwaitFirst)) (drop (Suc k) contexts)"
    using k by (simp add: take_Suc_conv_app_nth)
  finally have t: "tasks (?f k ?cur)
      = map ?S (take (Suc k) contexts) @ map (\<lambda>c. (c, AwaitFirst)) (drop (Suc k) contexts)" .
  have "allTests (?f k ?cur)
      = allTests ?cur @ tests (searchSource_getTestPaths env st (contexts ! k) p)"
    using nfk len at by (rule resume_task_no_fallback)
  also have "\<dots> = concat (map (\<lambda>c. tests (searchSource_getTestPaths env st c p)) (take (Suc k) contexts))"
    unfolding ih2 using k by (simp add: take_Suc_conv_app_nth)
  finally have a: "allTests (?f k ?cur)
      = concat (map (\<lambda>c. tests (searchSource_getTestPaths env st c p)) (take (Suc k) contexts))" .
  have "completion_order_from ?f [k] ?cur = [k]"
    using len at new by simp
  then have o: "completion_order_from ?f [0..<Suc k] ?init = [0..<Suc k]"
    unfolding upt completion_order_from_append ih3 by simp
  show ?case unfolding step using t a o by simp
qed

lemma discover_no_fallback:
  fixes p :: TestSelectionConfig
  assumes nf: "\<forall>c \<in> set contexts. \<not> falls_back env st g p c"
  shows "tasks (discover env st g contexts p argv out [])
           = map (\<lambda>c. (c, Settled (searchSource_getTestPaths env st c p))) contexts"
    and "allTests (discover env st g contexts p argv out [])
           = concat (map (\<lambda>c. tests (searchSource_getTestPaths env st c p)) contexts)"
    and "completion_order env st g contexts p argv out [] = [0..<length contexts]"
proof -
  let ?f = "resume_task env st g p out"
  let ?init = "\<lparr>tasks = map (\<lambda>context. (context, AwaitFirst)) contexts, argv_now = argv,
             allTests = [], emitted = map (\<lambda>context. GetTestPaths context p) contexts\<rparr>"
  let ?cur = "fold ?f [0..<length contexts] ?init"
  have first: "tasks ?cur = map (\<lambda>c. (c, Settled (searchSource_getTestPaths env st c p))) contexts"
    "allTests ?cur = concat (map (\<lambda>c. tests (searchSource_getTestPaths env st c p)) contexts)"
    "completion_order_from ?f [0..<length contexts] ?init = [0..<length contexts]"
    using first_round_no_fallback[OF nf order_refl, where out=out and argv=argv
        and evs="map (\<lambda>context. GetTestPaths context p) contexts"]
    by simp_all
  have settled: "waits (snd (tasks ?cur ! i)) = 0" if "i < length (tasks ?cur)" for i
    using that by (simp add: first)
  have "fold ?f [0..<length contexts] ?cur = ?cur"
    by (rule fold_resume_idle) (rule settled)
  then have d: "discover env st g contexts p argv out [] = ?cur"
    by (simp add: discover_def)
  show "tasks (discover env st g contexts p argv out [])
           = map (\<lambda>c. (c, Settled (searchSource_getTestPaths env st c p))) contexts"
    and "allTests (discover env st g contexts p argv out [])
           = concat (map (\<lambda>c. tests (searchSource_getTestPaths env st c p)) contexts)"
    using d first by simp_all
  have "completion_order_from ?f [0..<length contexts] ?cur = []"
    by (rule completion_order_from_idle) (rule settled)
  then show "completion_order env st g contexts p argv out [] = [0..<length contexts]"
    using first(3) by (simp add: completion_order_def completion_order_from_append)
qed

lemma testRunData_of_all_settled:
  "testRunData_of (map (\<lambda>c. (c, Settled (f c))) cs)
     = map (\<lambda>c. \<lparr>run_context = c, matches = f c\<rparr>) cs"
  by (induction cs) simp_all

text \<open>With a single context the interleaving does not matter: whatever the order of
  resolution, discovery is one call of \<^verbatim>\<open>getTestPaths\<close> run from start to return.\<close>

lemma discover_single:
  fixes p :: TestSelectionConfig
  shows "discover env st g [c] p argv out sched =
           (case getTestPaths env st g c p argv out of
              (found, argv', evs) \<Rightarrow>
                \<lparr>tasks = [(c, Settled found)], argv_now = argv', allTests = tests found,
                 emitted = evs\<rparr>)"
proof -
  define f where "f = resume_task env st g p out"
  define init where "init =
    \<lparr>tasks = [(c, AwaitFirst)], argv_now = argv, allTests = [], emitted = [GetTestPaths c p]\<rparr>"
  define twice where "twice = f 0 (f 0 init)"
  have len: "length (tasks (f i d)) = length (tasks d)" for i d
    unfolding f_def by simp
  have w1: "waits (snd (tasks (f 0 init) ! 0)) \<le> 1"
    using resume_task_waits_dec[of 0 init env st g p out] by (simp add: f_def init_def)
  have "waits (snd (tasks twice ! 0)) \<le> waits (snd (tasks (f 0 init) ! 0)) - 1"
    unfolding twice_def f_def using len[of 0 init]
    by (intro resume_task_waits_dec) (simp add: f_def init_def)
  with w1 have w2: "waits (snd (tasks twice ! 0)) = 0" by simp
  have len2: "length (tasks twice) = 1"
    by (simp add: twice_def len init_def)
  have stable: "f i twice = twice" for i
    unfolding f_def using w2 len2 by (intro resume_task_idle) simp
  have other: "f i d = d" if "i \<noteq> 0" "length (tasks d) = 1" for i d
    unfolding f_def using that by (simp add: resume_task_def)
  have closed: "fold f is d \<in> {init, f 0 init, twice}" if "d \<in> {init, f 0 init, twice}" for "is" d
    using that
  proof (induction "is" arbitrary: d)
    case Nil
    then show ?case by simp
  next
    case (Cons i "is")
    have l: "length (tasks d) = 1"
      using Cons.prems len2 by (auto simp: len init_def)
    have "f i d \<in> {init, f 0 init, twice}"
    proof (cases "i = 0")
      case True
      then show ?thesis using Cons.prems stable[of 0] by (auto simp: twice_def)
    next
      case False
      then show ?thesis using other[OF False l] Cons.prems by simp
    qed
    then show ?case using Cons.IH by simp
  qed
  have "fold f sched init \<in> {init, f 0 init, twice}"
    by (rule closed) simp
  then have "f 0 (f 0 (fold f sched init)) = twice"
    using stable[of 0] by (auto simp: twice_def)
  then have d: "discover env st g [c] p argv out sched = twice"
    by (simp add: discover_def f_def init_def)
  show ?thesis
    unfolding d twice_def f_def init_def
    by (simp add: resume_task_def getTestPaths_def getTestPaths_resume_def Let_def)
qed

text \<open>\<^verbatim>\<open>argv\<close> is only rewritten by the watch-mode fallback.\<close>

lemma resume_task_argv:
  fixes p :: TestSelectionConfig
  assumes "\<not> (onlyChanged p \<and> GlobalConfig.watch (props (globalConfigs st g)))"
  shows "argv_now (resume_task env st g p out i d) = argv_now d"
  using assms
  by (auto simp: resume_task_def getTestPaths_resume_def Let_def
      split: prod.splits task.splits)

lemma argv_after_unchanged:
  assumes "\<not> (onlyChanged (getTestPathPattern env argv)
                \<and> GlobalConfig.watch (props (globalConfigs st globalConfig)))"
  shows "argv_after env sched st globalConfig contexts argv outputStream = argv"
proof -
  have "argv_now (fold (resume_task env st globalConfig (getTestPathPattern env argv)
      outputStream) is d) = argv_now d" for "is" d
    by (induction "is" arbitrary: d) (simp_all add: resume_task_argv[OF assms])
  then show ?thesis
    by (simp add: argv_after_def discover_def)
qed

lemma quiet_filter:
  assumes "quiet evs"
  shows "filter is_SequencerSort evs = []" "filter is_RunTests evs = []"
    "filter is_CacheResults evs = []" "filter is_ConsoleLog evs = []"
    "filter is_OnComplete evs = []" "filter is_StdoutWrite evs = []"
    "filter is_WriteFileSync evs = []" "filter is_PrintNoTestsMessage evs = []"
    "filter is_ResultsProcessor evs = []"
  using assms by (auto simp: quiet_def filter_empty_conv)

lemma setConfig_globalConfigs [simp]:
  "globalConfigs (setConfig st contexts newConfig) = globalConfigs st"
  by (induction contexts arbitrary: st) simp_all

lemma apply_processor_events:
  "filter is_StdoutWrite (snd (apply_processor env r f)) = []"
  "filter is_WriteFileSync (snd (apply_processor env r f)) = []"
  "filter is_StreamLog (snd (apply_processor env r f)) = []"
  "filter is_ConsoleLog (snd (apply_processor env r f)) = []"
  "filter is_OnComplete (snd (apply_processor env r f)) = []"
  "filter is_RunTests (snd (apply_processor env r f)) = []"
  "filter is_CacheResults (snd (apply_processor env r f)) = []"
  "filter is_SequencerSort (snd (apply_processor env r f)) = []"
  by (simp_all add: apply_processor_def split: option.splits)

lemma execute_shape:
  fixes startRun :: nat and env sched st globalConfig contexts argv outputStream testWatcher
    printNoTestsMessage
  defines "x \<equiv> execute env sched st globalConfig contexts argv outputStream testWatcher startRun
                  printNoTestsMessage"
  shows "\<exists>reported.
           exec_events x = reported
             @ [RunTests (exec_globalConfig x) (exec_options x) (exec_tests x) testWatcher,
                CacheResults (exec_tests x) (exec_results x)]
           \<and> (\<forall>e \<in> set reported. is_StreamLog e \<or> is_PrintNoTestsMessage e)"
    and "exec_results x = testRunner_runTests env (exec_store x) (exec_globalConfig x)
           (exec_options x) (exec_tests x) testWatcher"
    and "exec_tests x = sequenced env sched st globalConfig contexts argv outputStream"
  unfolding x_def
  by (auto simp: execute_def report_or_verbose_def Let_def split: option.splits)

lemma execute_globalConfig:
  fixes startRun :: nat and env sched st globalConfig contexts argv outputStream testWatcher
    printNoTestsMessage
  defines "x \<equiv> execute env sched st globalConfig contexts argv outputStream testWatcher startRun
                  printNoTestsMessage"
  defines "ts \<equiv> sequenced env sched st globalConfig contexts argv outputStream"
  defines "g \<equiv> props (globalConfigs st globalConfig)"
  shows "length ts = 1 \<and> silent g \<noteq> Some True \<and> verbose g \<noteq> Some False \<Longrightarrow>
           exec_globalConfig x = next_addr st
           \<and> globalConfigs (exec_store x) =
               (globalConfigs st)(next_addr st := \<lparr>frozen = True, props = g\<lparr>verbose := Some True\<rparr>\<rparr>)"
    and "\<not> (length ts = 1 \<and> silent g \<noteq> Some True \<and> verbose g \<noteq> Some False) \<Longrightarrow>
           exec_globalConfig x = globalConfig \<and> globalConfigs (exec_store x) = globalConfigs st"
  unfolding x_def ts_def g_def
  by (auto simp: execute_def report_or_verbose_def Let_def split: option.splits)

lemma execute_processor:
  fixes startRun :: nat and env sched st globalConfig contexts argv outputStream testWatcher
    printNoTestsMessage
  defines "x \<equiv> execute env sched st globalConfig contexts argv outputStream testWatcher startRun
                  printNoTestsMessage"
  shows "GlobalConfig.testResultsProcessor (props (globalConfigs (exec_store x) (exec_globalConfig x)))
       = GlobalConfig.testResultsProcessor (props (globalConfigs st globalConfig))"
  unfolding x_def
  by (auto simp: execute_def report_or_verbose_def Let_def split: option.splits)

lemma processResults_result:
  "fst (processResults env r options) =
     (case onComplete options of
        None \<Rightarrow> Undefined
      | Some callback \<Rightarrow>
          callback (fst (apply_processor env r (ProcessOptions.testResultsProcessor options))))"
  by (simp add: processResults_def Let_def split: option.splits)

lemma processResults_postprocessing:
  "filter postprocessing (snd (processResults env r options)) = snd (processResults env r options)"
  by (simp add: processResults_def Let_def apply_processor_def postprocessing_def
      split: option.splits)

lemma processResults_onComplete:
  "filter is_OnComplete (snd (processResults env r options)) =
     (case onComplete options of
        None \<Rightarrow> []
      | Some callback \<Rightarrow>
          [OnComplete (fst (apply_processor env r (ProcessOptions.testResultsProcessor options)))])"
  by (simp add: processResults_def Let_def apply_processor_events split: option.splits)

lemma reported_filters:
  assumes "\<forall>e \<in> set reported. is_StreamLog e \<or> is_PrintNoTestsMessage e"
  shows "filter is_RunTests reported = []" "filter is_CacheResults reported = []"
    "filter postprocessing reported = []" "filter is_SequencerSort reported = []"
  using assms by (auto simp: filter_empty_conv postprocessing_def)

lemma quiet_postprocessing:
  assumes "quiet evs"
  shows "filter postprocessing evs = []"
  using assms by (auto simp: quiet_def filter_empty_conv postprocessing_def)

lemma postprocessing_filters:
  assumes "filter postprocessing evs = evs"
  shows "filter is_RunTests evs = []" "filter is_CacheResults evs = []"
    "filter is_SequencerSort evs = []"
proof -
  have "\<forall>e \<in> set evs. postprocessing e"
    using assms by (metis filter_id_conv)
  then show "filter is_RunTests evs = []" "filter is_CacheResults evs = []"
    "filter is_SequencerSort evs = []"
    by (auto simp: filter_empty_conv postprocessing_def)
qed

lemma runJest_trace:
  fixes startRun :: nat and onComplete :: "(jsval \<Rightarrow> jsval) option"
    and env sched st globalConfig contexts argv outputStream testWatcher printNoTestsMessage
  defines "x \<equiv> execute env sched st globalConfig contexts argv outputStream testWatcher
                  startRun printNoTestsMessage"
  defines "out \<equiv> runJest env sched st globalConfig contexts argv outputStream testWatcher
                    startRun onComplete printNoTestsMessage"
  defines "d \<equiv> discover env st globalConfig contexts (getTestPathPattern env argv) argv
                  outputStream sched"
  assumes "\<not> listTests (argv_after env sched st globalConfig contexts argv outputStream)"
  shows "\<exists>reported after.
           trace out = (emitted d @ [SequencerSort (allTests d)] @ reported)
             @ [RunTests (exec_globalConfig x) (exec_options x) (exec_tests x) testWatcher,
                CacheResults (exec_tests x) (exec_results x)]
             @ after
           \<and> (\<forall>e \<in> set reported. is_StreamLog e \<or> is_PrintNoTestsMessage e)
           \<and> filter postprocessing after = after"
proof -
  let ?argv = "argv_after env sched st globalConfig contexts argv outputStream"
  let ?post = "snd (processResults env (exec_results x)
      \<lparr>isJSON = json ?argv, onComplete = onComplete, outputFile = Argv.outputFile ?argv,
       testResultsProcessor = GlobalConfig.testResultsProcessor
         (props (globalConfigs (exec_store x) (exec_globalConfig x)))\<rparr>)"
  let ?calls = "[RunTests (exec_globalConfig x) (exec_options x) (exec_tests x) testWatcher,
      CacheResults (exec_tests x) (exec_results x)]"
  obtain reported where ev: "exec_events x = reported @ ?calls"
    and rep: "\<forall>e \<in> set reported. is_StreamLog e \<or> is_PrintNoTestsMessage e"
    using execute_shape(1)[of env sched st globalConfig contexts argv outputStream testWatcher
        startRun printNoTestsMessage]
    unfolding x_def by blast
  have post: "filter postprocessing ?post = ?post" by (rule processResults_postprocessing)
  have tr: "trace out = (emitted d @ [SequencerSort (allTests d)] @ reported) @ ?calls @ ?post"
    using assms(4) ev by (simp add: out_def x_def d_def runJest_def Let_def)
  show ?thesis
    using tr rep post by blast
qed

lemma runJest_final:
  fixes startRun :: nat and onComplete :: "(jsval \<Rightarrow> jsval) option"
  assumes "\<not> listTests (argv_after env sched st globalConfig contexts argv outputStream)"
  shows "final (runJest env sched st globalConfig contexts argv outputStream testWatcher
                  startRun onComplete printNoTestsMessage)
       = exec_store (execute env sched st globalConfig contexts argv outputStream testWatcher
                  startRun printNoTestsMessage)"
  using assms by (simp add: runJest_def Let_def)

lemma runJest_calls:
  fixes startRun :: nat and onComplete :: "(jsval \<Rightarrow> jsval) option"
    and env sched st globalConfig contexts argv outputStream testWatcher printNoTestsMessage
  defines "x \<equiv> execute env sched st globalConfig contexts argv outputStream testWatcher
                  startRun printNoTestsMessage"
  defines "out \<equiv> runJest env sched st globalConfig contexts argv outputStream testWatcher
                    startRun onComplete printNoTestsMessage"
  assumes "\<not> listTests (argv_after env sched st globalConfig contexts argv outputStream)"
  shows "filter is_RunTests (trace out)
           = [RunTests (exec_globalConfig x) (exec_options x) (exec_tests x) testWatcher]"
    and "filter is_CacheResults (trace out) = [CacheResults (exec_tests x) (exec_results x)]"
proof -
  let ?d = "discover env st globalConfig contexts (getTestPathPattern env argv) argv
      outputStream sched"
  have q: "quiet (emitted ?d)" by (rule discover_settles)
  obtain reported after where tr: "trace out
      = (emitted ?d @ [SequencerSort (allTests ?d)] @ reported)
        @ [RunTests (exec_globalConfig x) (exec_options x) (exec_tests x) testWatcher,
           CacheResults (exec_tests x) (exec_results x)]
        @ after"
    and rep: "\<forall>e \<in> set reported. is_StreamLog e \<or> is_PrintNoTestsMessage e"
    and post: "filter postprocessing after = after"
    using runJest_trace[OF assms(3), of testWatcher startRun onComplete printNoTestsMessage]
    unfolding out_def x_def by blast
  show "filter is_RunTests (trace out)
           = [RunTests (exec_globalConfig x) (exec_options x) (exec_tests x) testWatcher]"
    unfolding tr
    by (simp add: quiet_filter[OF q] reported_filters[OF rep] postprocessing_filters[OF post])
  show "filter is_CacheResults (trace out) = [CacheResults (exec_tests x) (exec_results x)]"
    unfolding tr
    by (simp add: quiet_filter[OF q] reported_filters[OF rep] postprocessing_filters[OF post])
qed

lemma runJest_sorts_once:
  fixes startRun :: nat and onComplete :: "(jsval \<Rightarrow> jsval) option"
  shows "filter is_SequencerSort
           (trace (runJest env sched st globalConfig contexts argv outputStream testWatcher
                     startRun onComplete printNoTestsMessage))
         = [SequencerSort (allTests (discover env st globalConfig contexts
              (getTestPathPattern env argv) argv outputStream sched))]"
proof (cases "listTests (argv_after env sched st globalConfig contexts argv outputStream)")
  case True
  have q: "quiet (emitted (discover env st globalConfig contexts (getTestPathPattern env argv)
      argv outputStream sched))"
    by (rule discover_settles)
  show ?thesis
    using True by (simp add: runJest_def Let_def quiet_filter[OF q] split: option.splits)
next
  case False
  let ?d = "discover env st globalConfig contexts (getTestPathPattern env argv) argv
      outputStream sched"
  have q: "quiet (emitted ?d)" by (rule discover_settles)
  obtain reported after where tr: "trace (runJest env sched st globalConfig contexts argv
        outputStream testWatcher startRun onComplete printNoTestsMessage)
      = (emitted ?d @ [SequencerSort (allTests ?d)] @ reported)
        @ [RunTests (exec_globalConfig (execute env sched st globalConfig contexts argv
              outputStream testWatcher startRun printNoTestsMessage))
             (exec_options (execute env sched st globalConfig contexts argv
              outputStream testWatcher startRun printNoTestsMessage))
             (exec_tests (execute env sched st globalConfig contexts argv
              outputStream testWatcher startRun printNoTestsMessage)) testWatcher,
           CacheResults (exec_tests (execute env sched st globalConfig contexts argv
              outputStream testWatcher startRun printNoTestsMessage))
             (exec_results (execute env sched st globalConfig contexts argv
              outputStream testWatcher startRun printNoTestsMessage))]
        @ after"
    and rep: "\<forall>e \<in> set reported. is_StreamLog e \<or> is_PrintNoTestsMessage e"
    and post: "filter postprocessing after = after"
    using runJest_trace[OF False, of testWatcher startRun onComplete printNoTestsMessage]
    by blast
  show ?thesis
    unfolding tr
    by (simp add: quiet_filter[OF q] reported_filters[OF rep] postprocessing_filters[OF post])
qed

section \<open>Properties\<close>

subsection \<open>The result of a run\<close>

text \<open>
  C1, as the code has it. With \<^verbatim>\<open>listTests\<close> set the controller returns \<^verbatim>\<open>null\<close>. Otherwise
  its result is what the completion callback returns for the processed Aggregated Result
  when a callback is supplied, and \<^verbatim>\<open>undefined\<close> when none is supplied: the last line
  of \<^verbatim>\<open>processResults\<close> is \<^verbatim>\<open>options.onComplete && options.onComplete(runResults)\<close>, whose
  value without a callback is the absent callback and not the Aggregated Result.
\<close>

theorem runJest_result:
  fixes startRun :: nat and onComplete :: "(jsval \<Rightarrow> jsval) option"
  shows "result (runJest env sched st globalConfig contexts argv outputStream testWatcher
                   startRun onComplete printNoTestsMessage) =
           (if listTests (argv_after env sched st globalConfig contexts argv outputStream)
            then Null
            else (case onComplete of
                    None \<Rightarrow> Undefined
                  | Some callback \<Rightarrow>
                      callback
                        (fst (apply_processor env
                           (exec_results (execute env sched st globalConfig contexts argv
                              outputStream testWatcher startRun printNoTestsMessage))
                           (GlobalConfig.testResultsProcessor
                              (props (globalConfigs st globalConfig)))))))"
  by (simp add: runJest_def Let_def processResults_result execute_processor
      split: option.splits)

text \<open>A run of one test without a completion callback: the result is \<^verbatim>\<open>undefined\<close>,
  while the processed Aggregated Result is the object the runner returned.\<close>

theorem runJest_result_counterexample:
  "result (runJest (sample_env search_all ran) [] (sample_store sample_globalConfig) 0 [0]
             sample_argv 1 2 3 None None)
     \<noteq> fst (apply_processor (sample_env search_all ran)
            (exec_results (execute (sample_env search_all ran) []
               (sample_store sample_globalConfig) 0 [0] sample_argv 1 2 3 None))
            (GlobalConfig.testResultsProcessor
               (props (globalConfigs (sample_store sample_globalConfig) 0))))
   \<and> \<not> listTests (argv_after (sample_env search_all ran) []
            (sample_store sample_globalConfig) 0 [0] sample_argv 1)
   \<and> result (runJest (sample_env search_all ran) [] (sample_store sample_globalConfig) 0 [0]
             sample_argv 1 2 3 None None) = Undefined
   \<and> fst (apply_processor (sample_env search_all ran)
            (exec_results (execute (sample_env search_all ran) []
               (sample_store sample_globalConfig) 0 [0] sample_argv 1 2 3 None))
            (GlobalConfig.testResultsProcessor
               (props (globalConfigs (sample_store sample_globalConfig) 0))))
       = Obj [(''numTotalTests'', Num 1)]"
  by (simp add: run_defs sample_defs)

theorem runJest_result_witness:
  "result (runJest (sample_env search_all ran) [] (sample_store sample_globalConfig) 0 [0]
             sample_argv 1 2 3 (Some (\<lambda>r. Arr [Str ''seen'', r])) None)
     = Arr [Str ''seen'', Obj [(''numTotalTests'', Num 1)]]
   \<and> result (runJest (sample_env search_all ran) [] (sample_store sample_globalConfig) 0 [0]
             (sample_argv\<lparr>listTests := True\<rparr>) 1 2 3 (Some (\<lambda>r. Arr [Str ''seen'', r])) None)
     = Null"
  using runJest_result[of "sample_env search_all ran" "[]" "sample_store sample_globalConfig"
      0 "[0]" sample_argv 1 2 3 "Some (\<lambda>r. Arr [Str ''seen'', r])" None]
    runJest_result[of "sample_env search_all ran" "[]" "sample_store sample_globalConfig"
      0 "[0]" "sample_argv\<lparr>listTests := True\<rparr>" 1 2 3 "Some (\<lambda>r. Arr [Str ''seen'', r])" None]
  by (simp add: run_defs sample_defs)

subsection \<open>The list handed to the sequencer\<close>

text \<open>
  C2, as the code has it. \<^verbatim>\<open>sequencer.sort\<close> is called once, with \<^verbatim>\<open>allTests\<close>. That list
  is the concatenation of the test lists of the per-context Match Sets in the order in
  which the discoveries of the contexts complete (\<open>completion_order\<close>, the positions of
  the contexts in the order in which their tasks settle under the given order of
  resolution), which is an arrangement of all positions; inside one context the engine's
  order is kept. So every test of every Match Set is in the list as often as the Match
  Sets have it: none is dropped, none is duplicated. Whenever the discoveries complete in
  context order the list is the concatenation in context order, and they do so when
  every promise is resolved as soon as it is made and no context falls back to a second
  search.
\<close>

theorem allTests_concatenation:
  fixes startRun :: nat and onComplete :: "(jsval \<Rightarrow> jsval) option"
    and env sched st globalConfig contexts argv outputStream testWatcher printNoTestsMessage
  defines "d \<equiv> discover env st globalConfig contexts (getTestPathPattern env argv) argv
                  outputStream sched"
  defines "testRunData \<equiv> testRunData_of (tasks d)"
  defines "order \<equiv> completion_order env st globalConfig contexts (getTestPathPattern env argv)
                      argv outputStream sched"
  shows "filter is_SequencerSort
           (trace (runJest env sched st globalConfig contexts argv outputStream testWatcher
                     startRun onComplete printNoTestsMessage))
         = [SequencerSort (allTests d)]
       \<and> map run_context testRunData = contexts
       \<and> mset order = mset [0..<length contexts]
       \<and> allTests d = concat (map (\<lambda>i. tests (matches (testRunData ! i))) order)
       \<and> mset (allTests d) = mset (concat (map (\<lambda>r. tests (matches r)) testRunData))
       \<and> (order = [0..<length contexts] \<longrightarrow>
            allTests d = concat (map (\<lambda>r. tests (matches r)) testRunData))
       \<and> (sched = []
            \<and> (\<forall>c \<in> set contexts.
                  \<not> falls_back env st globalConfig (getTestPathPattern env argv) c) \<longrightarrow>
            order = [0..<length contexts]
            \<and> allTests d = concat (map (\<lambda>r. tests (matches r)) testRunData))"
proof -
  have s: "filter is_SequencerSort
           (trace (runJest env sched st globalConfig contexts argv outputStream testWatcher
                     startRun onComplete printNoTestsMessage))
         = [SequencerSort (allTests d)]"
    unfolding d_def by (rule runJest_sorts_once)
  have c: "map run_context testRunData = contexts"
    unfolding testRunData_def d_def by (rule discover_testRunData)
  have len: "length testRunData = length contexts"
    using arg_cong[OF c, of length] by simp
  have m: "mset order = mset [0..<length contexts]"
    unfolding order_def by (rule discover_completion_order)
  have a: "allTests d = concat (map (\<lambda>i. tests (matches (testRunData ! i))) order)"
    unfolding order_def testRunData_def d_def by (rule discover_completion_order)
  have ms: "mset (allTests d) = mset (concat (map (\<lambda>r. tests (matches r)) testRunData))"
    unfolding a using m len by (intro mset_concat_reorder) simp
  have "map (\<lambda>i. tests (matches (testRunData ! i))) [0..<length testRunData]
      = map (\<lambda>r. tests (matches r)) testRunData"
    by (rule nth_equalityI) simp_all
  then have io: "allTests d = concat (map (\<lambda>r. tests (matches r)) testRunData)"
    if "order = [0..<length contexts]"
    using a that len by simp
  have nf: "order = [0..<length contexts]"
    if "sched = []" and "\<forall>c \<in> set contexts.
        \<not> falls_back env st globalConfig (getTestPathPattern env argv) c"
    using discover_no_fallback(3)[OF that(2), where argv=argv and out=outputStream] that(1)
    unfolding order_def by simp
  show ?thesis
    using s c m a ms io nf by (intro conjI impI) (assumption | simp)+
qed

text \<open>
  Two contexts in watch mode with a pattern for changed files, every promise resolved as
  soon as it is made. Context 0 has no source control: its first answer is empty and it
  searches a second time. Context 1 finds \<^verbatim>\<open>b.test.js\<close> at once. Its discovery completes
  first, so the sequencer is handed \<^verbatim>\<open>b.test.js\<close> before \<^verbatim>\<open>a.test.js\<close>, while the
  concatenation of the Match Sets in context order has \<^verbatim>\<open>a.test.js\<close> first.
\<close>

theorem allTests_concatenation_counterexample:
  "filter is_SequencerSort
     (trace (runJest (sample_env search_mixed ran) []
               (sample_store (sample_globalConfig\<lparr>GlobalConfig.watch := True\<rparr>)) 0 [0, 1]
               (sample_argv\<lparr>more_args := [(''onlyChanged'', Bool True)]\<rparr>) 1 2 3 None None))
     \<noteq> [SequencerSort (concat (map (\<lambda>r. tests (matches r))
          (testRunData_of (tasks (discover (sample_env search_mixed ran)
             (sample_store (sample_globalConfig\<lparr>GlobalConfig.watch := True\<rparr>)) 0 [0, 1]
             (getTestPathPattern (sample_env search_mixed ran)
                (sample_argv\<lparr>more_args := [(''onlyChanged'', Bool True)]\<rparr>))
             (sample_argv\<lparr>more_args := [(''onlyChanged'', Bool True)]\<rparr>) 1 [])))))]
   \<and> filter is_SequencerSort
     (trace (runJest (sample_env search_mixed ran) []
               (sample_store (sample_globalConfig\<lparr>GlobalConfig.watch := True\<rparr>)) 0 [0, 1]
               (sample_argv\<lparr>more_args := [(''onlyChanged'', Bool True)]\<rparr>) 1 2 3 None None))
     = [SequencerSort [\<lparr>test_context = 1, path = ''b.test.js''\<rparr>,
                       \<lparr>test_context = 0, path = ''a.test.js''\<rparr>]]
   \<and> concat (map (\<lambda>r. tests (matches r))
        (testRunData_of (tasks (discover (sample_env search_mixed ran)
           (sample_store (sample_globalConfig\<lparr>GlobalConfig.watch := True\<rparr>)) 0 [0, 1]
           (getTestPathPattern (sample_env search_mixed ran)
              (sample_argv\<lparr>more_args := [(''onlyChanged'', Bool True)]\<rparr>))
           (sample_argv\<lparr>more_args := [(''onlyChanged'', Bool True)]\<rparr>) 1 []))))
     = [\<lparr>test_context = 0, path = ''a.test.js''\<rparr>, \<lparr>test_context = 1, path = ''b.test.js''\<rparr>]"
  by (simp add: run_defs sample_defs)

text \<open>
  In watch mode with a pattern for changed files, contexts that find their tests at once
  complete in context order. With context 0 outside source control, as above, the
  completion order is context 1, then context 0.
\<close>

theorem allTests_concatenation_witness:
  "completion_order (sample_env search_all ran)
     (sample_store (sample_globalConfig\<lparr>GlobalConfig.watch := True\<rparr>)) 0 [0, 1]
     (sample_pattern (sample_argv\<lparr>more_args := [(''onlyChanged'', Bool True)]\<rparr>))
     (sample_argv\<lparr>more_args := [(''onlyChanged'', Bool True)]\<rparr>) 1 []
     = [0, 1]
   \<and> filter is_SequencerSort
     (trace (runJest (sample_env search_all ran) []
               (sample_store (sample_globalConfig\<lparr>GlobalConfig.watch := True\<rparr>)) 0 [0, 1]
               (sample_argv\<lparr>more_args := [(''onlyChanged'', Bool True)]\<rparr>) 1 2 3 None None))
     = [SequencerSort [\<lparr>test_context = 0, path = ''a.test.js''\<rparr>,
                       \<lparr>test_context = 1, path = ''b.test.js''\<rparr>]]
   \<and> completion_order (sample_env search_mixed ran)
     (sample_store (sample_globalConfig\<lparr>GlobalConfig.watch := True\<rparr>)) 0 [0, 1]
     (sample_pattern (sample_argv\<lparr>more_args := [(''onlyChanged'', Bool True)]\<rparr>))
     (sample_argv\<lparr>more_args := [(''onlyChanged'', Bool True)]\<rparr>) 1 []
     = [1, 0]
   \<and> mset (allTests (discover (sample_env search_mixed ran)
           (sample_store (sample_globalConfig\<lparr>GlobalConfig.watch := True\<rparr>)) 0 [0, 1]
           (sample_pattern (sample_argv\<lparr>more_args := [(''onlyChanged'', Bool True)]\<rparr>))
           (sample_argv\<lparr>more_args := [(''onlyChanged'', Bool True)]\<rparr>) 1 []))
     = {#\<lparr>test_context = 0, path = ''a.test.js''\<rparr>, \<lparr>test_context = 1, path = ''b.test.js''\<rparr>#}"
  using allTests_concatenation[of "sample_env search_all ran" "[]"
      "sample_store (sample_globalConfig\<lparr>GlobalConfig.watch := True\<rparr>)" 0 "[0, 1]"
      "sample_argv\<lparr>more_args := [(''onlyChanged'', Bool True)]\<rparr>" 1 2 3 None None]
    allTests_concatenation[of "sample_env search_mixed ran" "[]"
      "sample_store (sample_globalConfig\<lparr>GlobalConfig.watch := True\<rparr>)" 0 "[0, 1]"
      "sample_argv\<lparr>more_args := [(''onlyChanged'', Bool True)]\<rparr>" 1 2 3 None None]
  by (simp add: run_defs sample_defs completion_order_def falls_back_def)

subsection \<open>Discovery without source control\<close>

text \<open>
  C3. Let the first answer of the search engine for a context have no tests and report
  that there is no source control, for a pattern that selects only changed files. In
  watch mode \<^verbatim>\<open>getTestPaths\<close> asks the engine a second time, with the pattern computed from
  \<^verbatim>\<open>argv\<close> after \<^verbatim>\<open>updateArgv(argv, 'watchAll', {noSCM: true})\<close>, returns the second answer and
  writes nothing. Outside watch mode it asks once, writes the fixed message about git and
  hg repositories to the output stream and returns the first, empty answer.
\<close>

theorem getTestPaths_without_SCM:
  fixes pattern :: TestSelectionConfig
  assumes "tests (searchSource_getTestPaths env st context pattern) = []"
    and "onlyChanged pattern"
    and "noSCM (searchSource_getTestPaths env st context pattern)"
  shows "(GlobalConfig.watch (props (globalConfigs st globalConfig)) \<longrightarrow>
            getTestPaths env st globalConfig context pattern argv outputStream =
              (searchSource_getTestPaths env st context
                 (getTestPathPattern env (updateArgv env argv ''watchAll'' [(''noSCM'', Bool True)])),
               updateArgv env argv ''watchAll'' [(''noSCM'', Bool True)],
               [GetTestPaths context pattern,
                GetTestPaths context
                  (getTestPathPattern env
                     (updateArgv env argv ''watchAll'' [(''noSCM'', Bool True)]))]))
       \<and> (\<not> GlobalConfig.watch (props (globalConfigs st globalConfig)) \<longrightarrow>
            getTestPaths env st globalConfig context pattern argv outputStream =
              (searchSource_getTestPaths env st context pattern, argv,
               [GetTestPaths context pattern, StreamLog outputStream noSCM_message]))"
  using assms by (simp add: getTestPaths_def getTestPaths_resume_def Let_def)

theorem getTestPaths_without_SCM_witness:
  "getTestPaths (sample_env search_without_SCM ran)
     (sample_store (sample_globalConfig\<lparr>GlobalConfig.watch := True\<rparr>)) 0 0
     (sample_pattern (sample_argv\<lparr>more_args := [(''onlyChanged'', Bool True)]\<rparr>))
     (sample_argv\<lparr>more_args := [(''onlyChanged'', Bool True)]\<rparr>) 1
   = (found_in 0,
      sample_argv\<lparr>more_args := [(''watchAll'', Bool True), (''noSCM'', Bool True)]\<rparr>,
      [GetTestPaths 0 (sample_pattern (sample_argv\<lparr>more_args := [(''onlyChanged'', Bool True)]\<rparr>)),
       GetTestPaths 0 (sample_pattern sample_argv)])
   \<and> getTestPaths (sample_env search_without_SCM ran)
     (sample_store sample_globalConfig) 0 0
     (sample_pattern (sample_argv\<lparr>more_args := [(''onlyChanged'', Bool True)]\<rparr>))
     (sample_argv\<lparr>more_args := [(''onlyChanged'', Bool True)]\<rparr>) 1
   = (no_matches\<lparr>noSCM := True\<rparr>,
      sample_argv\<lparr>more_args := [(''onlyChanged'', Bool True)]\<rparr>,
      [GetTestPaths 0 (sample_pattern (sample_argv\<lparr>more_args := [(''onlyChanged'', Bool True)]\<rparr>)),
       StreamLog 1 noSCM_message])"
  using getTestPaths_without_SCM[of "sample_env search_without_SCM ran"
      "sample_store (sample_globalConfig\<lparr>GlobalConfig.watch := True\<rparr>)" 0
      "sample_pattern (sample_argv\<lparr>more_args := [(''onlyChanged'', Bool True)]\<rparr>)" 0
      "sample_argv\<lparr>more_args := [(''onlyChanged'', Bool True)]\<rparr>" 1]
    getTestPaths_without_SCM[of "sample_env search_without_SCM ran"
      "sample_store sample_globalConfig" 0
      "sample_pattern (sample_argv\<lparr>more_args := [(''onlyChanged'', Bool True)]\<rparr>)" 0
      "sample_argv\<lparr>more_args := [(''onlyChanged'', Bool True)]\<rparr>" 1]
  by (simp add: sample_defs)

subsection \<open>Listing the tests\<close>

text \<open>
  C4. When \<^verbatim>\<open>argv.listTests\<close> is set (in \<^verbatim>\<open>argv\<close> as discovery leaves it, which is where
  the controller reads it, and which by \<open>argv_after_unchanged\<close> is the given \<^verbatim>\<open>argv\<close>
  unless the watch-mode fallback has rewritten it), the run consists of discovery, the call of the sequencer, one
  \<^verbatim>\<open>console.log\<close> of the JSON array of the paths of the ordered tests, and the call of the
  completion callback, if there is one, with \<^verbatim>\<open>makeEmptyAggregatedTestResult()\<close>. The
  text printed for an empty ordered list is \<^verbatim>\<open>[]\<close>, which is what is printed when no
  test was discovered and the sequencer returns the empty list for the empty list. The
  test runner is not called, and the result is \<^verbatim>\<open>null\<close>.
\<close>

theorem runJest_listTests:
  fixes startRun :: nat and onComplete :: "(jsval \<Rightarrow> jsval) option"
    and env sched st globalConfig contexts argv outputStream testWatcher printNoTestsMessage
  defines "d \<equiv> discover env st globalConfig contexts (getTestPathPattern env argv) argv
                  outputStream sched"
  defines "out \<equiv> runJest env sched st globalConfig contexts argv outputStream testWatcher
                    startRun onComplete printNoTestsMessage"
  assumes "listTests (argv_after env sched st globalConfig contexts argv outputStream)"
  shows "result out = Null
       \<and> trace out = emitted d
           @ [SequencerSort (allTests d),
              ConsoleLog (JSON_stringify_strings env
                (map path (sequenced env sched st globalConfig contexts argv outputStream)))]
           @ (case onComplete of
                None \<Rightarrow> []
              | Some callback \<Rightarrow> [OnComplete (makeEmptyAggregatedTestResult env)])
       \<and> filter is_ConsoleLog (trace out)
           = [ConsoleLog (JSON_stringify_strings env
                (map path (sequenced env sched st globalConfig contexts argv outputStream)))]
       \<and> (sequenced env sched st globalConfig contexts argv outputStream = [] \<longrightarrow>
            filter is_ConsoleLog (trace out) = [ConsoleLog ''[]''])
       \<and> (allTests d = [] \<and> sequencer_sort env [] = [] \<longrightarrow>
            filter is_ConsoleLog (trace out) = [ConsoleLog ''[]''])
       \<and> filter is_OnComplete (trace out)
           = (case onComplete of
                None \<Rightarrow> []
              | Some callback \<Rightarrow> [OnComplete (makeEmptyAggregatedTestResult env)])
       \<and> filter is_RunTests (trace out) = []"
proof -
  have q: "quiet (emitted d)"
    unfolding d_def by (rule discover_settles)
  show ?thesis
    using assms(3)
    by (simp add: out_def d_def runJest_def Let_def quiet_filter[OF q[unfolded d_def]]
        JSON_stringify_strings_def sequenced_def split: option.splits)
qed

theorem runJest_listTests_witness:
  "result (runJest (sample_env search_all ran) [] (sample_store sample_globalConfig) 0 [0, 1]
             (sample_argv\<lparr>listTests := True\<rparr>) 1 2 3 (Some (\<lambda>r. Null)) None) = Null
   \<and> filter is_ConsoleLog
       (trace (runJest (sample_env search_all ran) [] (sample_store sample_globalConfig) 0 [0, 1]
                 (sample_argv\<lparr>listTests := True\<rparr>) 1 2 3 (Some (\<lambda>r. Null)) None))
     = [ConsoleLog (''['' @ dq @ ''a.test.js'' @ dq @ '','' @ dq @ ''b.test.js'' @ dq @ '']'')]
   \<and> filter is_OnComplete
       (trace (runJest (sample_env search_all ran) [] (sample_store sample_globalConfig) 0 [0, 1]
                 (sample_argv\<lparr>listTests := True\<rparr>) 1 2 3 (Some (\<lambda>r. Null)) None))
     = [OnComplete (Obj [(''numTotalTests'', Num 0)])]
   \<and> filter is_RunTests
       (trace (runJest (sample_env search_all ran) [] (sample_store sample_globalConfig) 0 [0, 1]
                 (sample_argv\<lparr>listTests := True\<rparr>) 1 2 3 (Some (\<lambda>r. Null)) None))
     = []
   \<and> trace (runJest (sample_env (\<lambda>c p. no_matches) ran) [] (sample_store sample_globalConfig)
              0 [0, 1] (sample_argv\<lparr>listTests := True\<rparr>) 1 2 3 None None)
     = [GetTestPaths 0 (sample_pattern sample_argv), GetTestPaths 1 (sample_pattern sample_argv),
        SequencerSort [], ConsoleLog ''[]'']"
  using runJest_listTests[of "sample_env search_all ran" "[]" "sample_store sample_globalConfig"
      0 "[0, 1]" "sample_argv\<lparr>listTests := True\<rparr>" 1 2 3 "Some (\<lambda>r. Null)" None]
    runJest_listTests[of "sample_env (\<lambda>c p. no_matches) ran" "[]"
      "sample_store sample_globalConfig" 0 "[0, 1]" "sample_argv\<lparr>listTests := True\<rparr>" 1 2 3
      None None]
  by (simp add: run_defs sample_defs)

subsection \<open>JSON output\<close>

text \<open>
  C5. With the JSON flag set, \<^verbatim>\<open>processResults\<close> writes to \<^verbatim>\<open>process.stdout\<close> exactly once.
  Without an output file (the option is absent or the empty string) what it writes is
  \<^verbatim>\<open>JSON.stringify(formatTestResults(runResults))\<close> and nothing else, and no file is
  written. With an output file the same text goes to the file at
  \<^verbatim>\<open>path.resolve(process.cwd(), outputFile)\<close>, and what is written to \<^verbatim>\<open>process.stdout\<close> is
  the line \<^verbatim>\<open>Test results written to: \<close> followed by that path relative to the working
  directory. \<^verbatim>\<open>processResults\<close> logs nothing to a console.
\<close>

theorem processResults_json:
  assumes "isJSON options"
  shows "(\<not> truthy_str (ProcessOptions.outputFile options) \<longrightarrow>
            filter is_StdoutWrite (snd (processResults env runResults options))
              = [StdoutWrite (JSON_stringify env (formatTestResults env
                   (fst (apply_processor env runResults
                      (ProcessOptions.testResultsProcessor options)))))]
            \<and> filter is_WriteFileSync (snd (processResults env runResults options)) = [])
       \<and> (\<forall>file. ProcessOptions.outputFile options = Some file \<and> file \<noteq> [] \<longrightarrow>
            filter is_WriteFileSync (snd (processResults env runResults options))
              = [WriteFileSync (path_resolve env (process_cwd env) file)
                   (JSON_stringify env (formatTestResults env
                      (fst (apply_processor env runResults
                         (ProcessOptions.testResultsProcessor options)))))]
            \<and> filter is_StdoutWrite (snd (processResults env runResults options))
              = [StdoutWrite (''Test results written to: ''
                   @ path_relative env (process_cwd env)
                       (path_resolve env (process_cwd env) file) @ nl)])
       \<and> filter is_StreamLog (snd (processResults env runResults options)) = []
       \<and> filter is_ConsoleLog (snd (processResults env runResults options)) = []"
  using assms
  by (simp add: processResults_def Let_def truthy_str_def apply_processor_events
      split: option.splits)

theorem processResults_json_witness:
  "snd (processResults (sample_env search_all ran) (Obj [(''numTotalTests'', Num 1)])
          \<lparr>isJSON = True, onComplete = None, outputFile = None, testResultsProcessor = None\<rparr>)
     = [StdoutWrite (''{'' @ dq @ ''numTotalTests'' @ dq @ '':1}'')]
   \<and> snd (processResults (sample_env search_all ran) (Obj [(''numTotalTests'', Num 1)])
          \<lparr>isJSON = True, onComplete = None, outputFile = Some ''out.json'',
           testResultsProcessor = None\<rparr>)
     = [WriteFileSync ''/work/out.json'' (''{'' @ dq @ ''numTotalTests'' @ dq @ '':1}''),
        StdoutWrite (''Test results written to: out.json'' @ nl)]"
  using processResults_json[of
      "\<lparr>isJSON = True, onComplete = None, outputFile = None, testResultsProcessor = None\<rparr>"
      "sample_env search_all ran" "Obj [(''numTotalTests'', Num 1)]"]
    processResults_json[of
      "\<lparr>isJSON = True, onComplete = None, outputFile = Some ''out.json'',
        testResultsProcessor = None\<rparr>"
      "sample_env search_all ran" "Obj [(''numTotalTests'', Num 1)]"]
  by (simp add: run_defs sample_defs string_of_nat.simps digit_def truthy_str_def)

subsection \<open>The pattern formatter\<close>

text \<open>
  C6. The formatter returns the quoted input \<^verbatim>\<open>"<input>"\<close> exactly when
  \<^verbatim>\<open>input === testPathPattern\<close> and the pattern is not flagged
  \<^verbatim>\<open>shouldTreatInputAsPattern\<close>. In every other case it returns the slash-delimited
  pattern \<^verbatim>\<open>/<testPathPattern>/\<close>, which for a flagged pattern whose input equals the
  pattern is the slash-delimited input.
\<close>

theorem formatTestPathPattern_forms:
  "formatTestPathPattern p =
     (if input p = TestSelectionConfig.testPathPattern p \<and> \<not> shouldTreatInputAsPattern p
      then dq @ or_empty (input p) @ dq
      else ''/'' @ or_empty (TestSelectionConfig.testPathPattern p) @ ''/'')
   \<and> ((formatTestPathPattern p = dq @ or_empty (input p) @ dq)
        = (input p = TestSelectionConfig.testPathPattern p \<and> \<not> shouldTreatInputAsPattern p))
   \<and> (input p = TestSelectionConfig.testPathPattern p \<and> shouldTreatInputAsPattern p
        \<longrightarrow> formatTestPathPattern p = ''/'' @ or_empty (input p) @ ''/'')"
  by (simp add: formatTestPathPattern_def Let_def)

theorem formatTestPathPattern_forms_witness:
  "formatTestPathPattern
     \<lparr>input = Some ''a.test.js'', testPathPattern = Some ''a.test.js'',
      shouldTreatInputAsPattern = True, onlyChanged = False,
      TestSelectionConfig.watch = False\<rparr>
   = ''/a.test.js/''
   \<and> formatTestPathPattern
     \<lparr>input = Some ''a.test.js'', testPathPattern = Some ''a.test.js'',
      shouldTreatInputAsPattern = False, onlyChanged = False,
      TestSelectionConfig.watch = False\<rparr>
   = dq @ ''a.test.js'' @ dq"
  using formatTestPathPattern_forms
    [of "\<lparr>input = Some ''a.test.js'', testPathPattern = Some ''a.test.js'',
      shouldTreatInputAsPattern = True, onlyChanged = False,
      TestSelectionConfig.watch = False\<rparr>"]
    formatTestPathPattern_forms
    [of "\<lparr>input = Some ''a.test.js'', testPathPattern = Some ''a.test.js'',
      shouldTreatInputAsPattern = False, onlyChanged = False,
      TestSelectionConfig.watch = False\<rparr>"]
  by (simp add: or_empty_def)

subsection \<open>A single test\<close>

text \<open>
  C7. Let the run get as far as the branch on the number of tests (\<^verbatim>\<open>listTests\<close> is not
  set), let the ordered test list have exactly one element, and let \<^verbatim>\<open>silent\<close> not be
  \<^verbatim>\<open>true\<close> and \<^verbatim>\<open>verbose\<close> not be \<^verbatim>\<open>false\<close> (which covers an unset \<^verbatim>\<open>verbose\<close>), in a store
  where the given configuration object is allocated. Then the global configuration the
  test runner gets is a newly allocated object, different from the given one; it is
  frozen, its \<^verbatim>\<open>verbose\<close> is \<^verbatim>\<open>true\<close> and every other property is copied from the given
  configuration; and no global configuration object that existed before, the given one
  among them, is changed.
\<close>

theorem single_test_forces_verbose:
  fixes startRun :: nat and onComplete :: "(jsval \<Rightarrow> jsval) option"
    and env sched st globalConfig contexts argv outputStream testWatcher printNoTestsMessage
  defines "x \<equiv> execute env sched st globalConfig contexts argv outputStream testWatcher
                  startRun printNoTestsMessage"
  defines "out \<equiv> runJest env sched st globalConfig contexts argv outputStream testWatcher
                    startRun onComplete printNoTestsMessage"
  assumes "\<not> listTests (argv_after env sched st globalConfig contexts argv outputStream)"
    and "length (sequenced env sched st globalConfig contexts argv outputStream) = 1"
    and "silent (props (globalConfigs st globalConfig)) \<noteq> Some True"
    and "verbose (props (globalConfigs st globalConfig)) \<noteq> Some False"
    and "globalConfig < next_addr st"
  shows "filter is_RunTests (trace out)
           = [RunTests (next_addr st) (exec_options x) (exec_tests x) testWatcher]
       \<and> next_addr st \<noteq> globalConfig
       \<and> globalConfigs (final out) (next_addr st)
           = \<lparr>frozen = True,
              props = (props (globalConfigs st globalConfig))\<lparr>verbose := Some True\<rparr>\<rparr>
       \<and> verbose (props (globalConfigs (final out) (next_addr st))) = Some True
       \<and> (\<forall>a. a \<noteq> next_addr st \<longrightarrow> globalConfigs (final out) a = globalConfigs st a)
       \<and> globalConfigs (final out) globalConfig = globalConfigs st globalConfig"
proof -
  have g: "exec_globalConfig x = next_addr st"
    and h: "globalConfigs (exec_store x) = (globalConfigs st)
        (next_addr st := \<lparr>frozen = True,
           props = (props (globalConfigs st globalConfig))\<lparr>verbose := Some True\<rparr>\<rparr>)"
    using execute_globalConfig(1)[of env sched st globalConfig contexts argv outputStream
        testWatcher startRun printNoTestsMessage] assms(4-6)
    unfolding x_def by simp_all
  have f: "final out = exec_store x"
    unfolding out_def x_def using assms(3) by (rule runJest_final)
  have r: "filter is_RunTests (trace out)
      = [RunTests (exec_globalConfig x) (exec_options x) (exec_tests x) testWatcher]"
    unfolding out_def x_def using assms(3) by (rule runJest_calls)
  show ?thesis
    using assms(7) by (simp add: r g f h)
qed

theorem single_test_forces_verbose_witness:
  "filter is_RunTests
     (trace (runJest (sample_env search_all ran) [] (sample_store sample_globalConfig) 0 [0]
               sample_argv 1 2 3 None None))
     = [RunTests 8
          \<lparr>maxWorkers = 1, pattern = sample_pattern sample_argv, startRun = 3,
           testNamePattern = None, testPathPattern = dq @ dq\<rparr>
          [\<lparr>test_context = 0, path = ''a.test.js''\<rparr>] 2]
   \<and> globalConfigs (final (runJest (sample_env search_all ran) []
         (sample_store sample_globalConfig) 0 [0] sample_argv 1 2 3 None None)) 8
     = \<lparr>frozen = True, props = sample_globalConfig\<lparr>verbose := Some True\<rparr>\<rparr>
   \<and> globalConfigs (final (runJest (sample_env search_all ran) []
         (sample_store sample_globalConfig) 0 [0] sample_argv 1 2 3 None None)) 0
     = \<lparr>frozen = True, props = sample_globalConfig\<rparr>"
  using single_test_forces_verbose[of "sample_env search_all ran" "[]"
      "sample_store sample_globalConfig" 0 "[0]" sample_argv 1 2 3 None None]
  by (simp add: run_defs sample_defs)

subsection \<open>Persisting the results\<close>

text \<open>
  C8. In a run that gets past the \<^verbatim>\<open>listTests\<close> exit, the test runner and
  \<^verbatim>\<open>sequencer.cacheResults\<close> are each called exactly once. \<^verbatim>\<open>cacheResults\<close> gets the same
  test list as the runner, which is the list the sequencer returned, and the value the
  runner returned for that call. In the trace the call of \<^verbatim>\<open>cacheResults\<close> follows the
  call of the runner at once, nothing of post-processing (results processor, writes to
  \<^verbatim>\<open>process.stdout\<close> or to a file, completion callback) comes before it, and only
  post-processing comes after it.
\<close>

theorem runJest_persists:
  fixes startRun :: nat and onComplete :: "(jsval \<Rightarrow> jsval) option"
    and env sched st globalConfig contexts argv outputStream testWatcher printNoTestsMessage
  defines "x \<equiv> execute env sched st globalConfig contexts argv outputStream testWatcher
                  startRun printNoTestsMessage"
  defines "out \<equiv> runJest env sched st globalConfig contexts argv outputStream testWatcher
                    startRun onComplete printNoTestsMessage"
  assumes "\<not> listTests (argv_after env sched st globalConfig contexts argv outputStream)"
  shows "filter is_RunTests (trace out)
           = [RunTests (exec_globalConfig x) (exec_options x) (exec_tests x) testWatcher]
       \<and> filter is_CacheResults (trace out) = [CacheResults (exec_tests x) (exec_results x)]
       \<and> exec_results x = testRunner_runTests env (exec_store x) (exec_globalConfig x)
                             (exec_options x) (exec_tests x) testWatcher
       \<and> exec_tests x = sequenced env sched st globalConfig contexts argv outputStream
       \<and> (\<exists>before after.
             trace out = before
               @ [RunTests (exec_globalConfig x) (exec_options x) (exec_tests x) testWatcher,
                  CacheResults (exec_tests x) (exec_results x)]
               @ after
             \<and> filter postprocessing before = []
             \<and> filter postprocessing after = after)"
proof -
  let ?d = "discover env st globalConfig contexts (getTestPathPattern env argv) argv
      outputStream sched"
  let ?calls = "[RunTests (exec_globalConfig x) (exec_options x) (exec_tests x) testWatcher,
      CacheResults (exec_tests x) (exec_results x)]"
  have q: "quiet (emitted ?d)" by (rule discover_settles)
  obtain reported after where tr: "trace out
      = (emitted ?d @ [SequencerSort (allTests ?d)] @ reported) @ ?calls @ after"
    and rep: "\<forall>e \<in> set reported. is_StreamLog e \<or> is_PrintNoTestsMessage e"
    and post: "filter postprocessing after = after"
    using runJest_trace[OF assms(3), of testWatcher startRun onComplete printNoTestsMessage]
    unfolding out_def x_def by blast
  have b: "filter postprocessing (emitted ?d @ [SequencerSort (allTests ?d)] @ reported) = []"
    by (simp add: quiet_postprocessing[OF q] reported_filters[OF rep] postprocessing_def)
  have r: "filter is_RunTests (trace out)
      = [RunTests (exec_globalConfig x) (exec_options x) (exec_tests x) testWatcher]"
    unfolding out_def x_def using assms(3) by (rule runJest_calls)
  have c: "filter is_CacheResults (trace out) = [CacheResults (exec_tests x) (exec_results x)]"
    unfolding out_def x_def using assms(3) by (rule runJest_calls)
  have e: "\<exists>before after. trace out = before @ ?calls @ after
      \<and> filter postprocessing before = [] \<and> filter postprocessing after = after"
    using tr b post by blast
  show ?thesis
    using r c e
      execute_shape(2,3)[of env sched st globalConfig contexts argv outputStream testWatcher
        startRun printNoTestsMessage]
    unfolding x_def by (intro conjI) assumption+
qed

theorem runJest_persists_witness:
  "filter (\<lambda>e. is_RunTests e \<or> is_CacheResults e \<or> is_OnComplete e)
     (trace (runJest (sample_env search_all ran) [] (sample_store sample_globalConfig) 0 [0, 1]
               sample_argv 1 2 3 (Some (\<lambda>r. Null)) None))
     = [RunTests 0
          \<lparr>maxWorkers = 1, pattern = sample_pattern sample_argv, startRun = 3,
           testNamePattern = None, testPathPattern = dq @ dq\<rparr>
          [\<lparr>test_context = 0, path = ''a.test.js''\<rparr>, \<lparr>test_context = 1, path = ''b.test.js''\<rparr>] 2,
        CacheResults
          [\<lparr>test_context = 0, path = ''a.test.js''\<rparr>, \<lparr>test_context = 1, path = ''b.test.js''\<rparr>]
          (Obj [(''numTotalTests'', Num 2)]),
        OnComplete (Obj [(''numTotalTests'', Num 2)])]"
  using runJest_persists[of "sample_env search_all ran" "[]"
      "sample_store sample_globalConfig" 0 "[0, 1]" sample_argv 1 2 3 "Some (\<lambda>r. Null)" None]
  by (simp add: run_defs sample_defs)

subsection \<open>The message when no test is found\<close>

text \<open>
  C9, as the code has it. For a pattern that is not in only-changed mode, the message for
  \<open>N\<close> contexts is the bold header \<^verbatim>\<open>No tests found\<close>, a line break, the \<open>N\<close> per-context
  blocks joined by line breaks, a line break, and the footer \<^verbatim>\<open>Pattern: \<close>, the formatted
  pattern in yellow, \<^verbatim>\<open> - 0 matches\<close>. The block of a context with a non-zero \<^verbatim>\<open>total\<close>
  names the root directory, counts the files checked and lists the statistics lines that
  are left after filtering; the line for the statistic \<^verbatim>\<open>roots\<close> is dropped exactly when
  the configuration of the context has exactly one root. (For a pattern in only-changed
  mode the message is a fixed text of two lines without any per-context block.)
\<close>

theorem getNoTestsFoundMessage_blocks:
  fixes pattern :: TestSelectionConfig
  assumes "\<not> onlyChanged pattern"
  shows "getNoTestsFoundMessage env st testRunData pattern =
           chalk_bold env (Str ''No tests found'') @ nl
           @ join nl (map (individualResult env st) testRunData) @ nl
           @ ''Pattern: '' @ chalk_yellow env (Str (formatTestPathPattern pattern))
           @ '' - 0 matches''
         \<and> length (map (individualResult env st) testRunData) = length testRunData
         \<and> (total_n (matches testRun) = Some k \<and> k \<noteq> 0 \<longrightarrow>
              individualResult env st testRun =
                ''In ''
                @ chalk_bold env
                    (Str (rootDir (props (configs st (config (contextObjs st (run_context testRun)))))))
                @ nl @ ''  '' @ pluralize ''file'' k ''s'' @ '' checked.'' @ nl
                @ join nl (filter_lines
                    (map (stat_line env (props (configs st (config (contextObjs st (run_context testRun))))))
                       (case stats (matches testRun) of None \<Rightarrow> [] | Some s \<Rightarrow> s))))
         \<and> ((stat_line env cfg (''roots'', n) = None) = (length (roots cfg) = 1))"
  using assms
  by (simp add: getNoTestsFoundMessage_def individualResult_def stat_line_def config_get_def Let_def)

theorem getNoTestsFoundMessage_blocks_counterexample:
  "getNoTestsFoundMessage (sample_env search_all ran) (sample_store sample_globalConfig)
     [\<lparr>run_context = 0, matches = no_matches\<rparr>]
     (sample_pattern (sample_argv\<lparr>more_args := [(''onlyChanged'', Bool True)]\<rparr>))
   = ''No tests found related to files changed since last commit.'' @ nl
     @ ''Run Jest without `-o` to run all tests.''
   \<and> getNoTestsFoundMessage (sample_env search_all ran) (sample_store sample_globalConfig)
     [\<lparr>run_context = 0, matches = no_matches\<rparr>]
     (sample_pattern (sample_argv\<lparr>more_args := [(''onlyChanged'', Bool True)]\<rparr>))
   \<noteq> chalk_bold (sample_env search_all ran) (Str ''No tests found'') @ nl
     @ join nl (map (individualResult (sample_env search_all ran)
                       (sample_store sample_globalConfig))
                  [\<lparr>run_context = 0, matches = no_matches\<rparr>]) @ nl
     @ ''Pattern: ''
     @ chalk_yellow (sample_env search_all ran)
         (Str (formatTestPathPattern
            (sample_pattern (sample_argv\<lparr>more_args := [(''onlyChanged'', Bool True)]\<rparr>))))
     @ '' - 0 matches''"
  by (simp add: message_defs sample_defs)

theorem getNoTestsFoundMessage_blocks_witness:
  "getNoTestsFoundMessage (sample_env search_all ran) (sample_store sample_globalConfig)
     [\<lparr>run_context = 0, matches = no_matches\<rparr>,
      \<lparr>run_context = 1,
       matches = \<lparr>tests = [],
                  stats = Some [(''roots'', 3), (''testRegex'', 1), (''testPathPattern'', 0)],
                  total_n = Some 3, noSCM = False\<rparr>\<rparr>]
     (sample_pattern sample_argv)
   = ''No tests found'' @ nl
     @ ''No files found in /work/p.'' @ nl
     @ ''Make sure Jest's configuration does not exclude this directory.'' @ nl
     @ ''To set up Jest, make sure a package.json file exists.'' @ nl
     @ ''Jest Documentation: facebook.github.io/jest/docs/configuration.html'' @ nl
     @ ''In /work/q'' @ nl
     @ ''  3 files checked.'' @ nl
     @ ''  roots: /work/q/src,/work/q/lib - 3 matches'' @ nl
     @ ''  testRegex: spec - 1 match'' @ nl
     @ ''Pattern: '' @ dq @ dq @ '' - 0 matches''
   \<and> stat_line (sample_env search_all ran)
       (props (configs (sample_store sample_globalConfig) 0)) (''roots'', 3) = None"
  using getNoTestsFoundMessage_blocks[of "sample_pattern sample_argv"
      "sample_env search_all ran" "sample_store sample_globalConfig"
      "[\<lparr>run_context = 0, matches = no_matches\<rparr>,
        \<lparr>run_context = 1,
         matches = \<lparr>tests = [],
                    stats = Some [(''roots'', 3), (''testRegex'', 1), (''testPathPattern'', 0)],
                    total_n = Some 3, noSCM = False\<rparr>\<rparr>]"
      "\<lparr>run_context = 1,
         matches = \<lparr>tests = [],
                    stats = Some [(''roots'', 3), (''testRegex'', 1), (''testPathPattern'', 0)],
                    total_n = Some 3, noSCM = False\<rparr>\<rparr>" 3
      "props (configs (sample_store sample_globalConfig) 0)" 3]
  by (simp add: message_defs sample_defs)

subsection \<open>A single test with verbose switched off\<close>

text \<open>
  C10. In a run that gets as far as the branch, with exactly one test in the ordered list:
  when \<^verbatim>\<open>verbose\<close> is \<^verbatim>\<open>false\<close>, whatever \<^verbatim>\<open>silent\<close> is, or when \<^verbatim>\<open>silent\<close> is \<^verbatim>\<open>true\<close>,
  the test runner gets the given configuration object and no global configuration object
  is created or changed. So a change of the global configuration needs both
  \<^verbatim>\<open>silent !== true\<close> and \<^verbatim>\<open>verbose !== false\<close>.
\<close>

theorem single_test_keeps_config:
  fixes startRun :: nat and onComplete :: "(jsval \<Rightarrow> jsval) option"
    and env sched st globalConfig contexts argv outputStream testWatcher printNoTestsMessage
  defines "x \<equiv> execute env sched st globalConfig contexts argv outputStream testWatcher
                  startRun printNoTestsMessage"
  defines "out \<equiv> runJest env sched st globalConfig contexts argv outputStream testWatcher
                    startRun onComplete printNoTestsMessage"
  assumes "\<not> listTests (argv_after env sched st globalConfig contexts argv outputStream)"
    and "length (sequenced env sched st globalConfig contexts argv outputStream) = 1"
  shows "(verbose (props (globalConfigs st globalConfig)) = Some False
          \<or> silent (props (globalConfigs st globalConfig)) = Some True \<longrightarrow>
            filter is_RunTests (trace out)
              = [RunTests globalConfig (exec_options x) (exec_tests x) testWatcher]
            \<and> globalConfigs (final out) = globalConfigs st)
       \<and> (globalConfigs (final out) \<noteq> globalConfigs st \<longrightarrow>
            silent (props (globalConfigs st globalConfig)) \<noteq> Some True
            \<and> verbose (props (globalConfigs st globalConfig)) \<noteq> Some False)"
proof -
  let ?flip = "length (sequenced env sched st globalConfig contexts argv outputStream) = 1
      \<and> silent (props (globalConfigs st globalConfig)) \<noteq> Some True
      \<and> verbose (props (globalConfigs st globalConfig)) \<noteq> Some False"
  have keep: "exec_globalConfig x = globalConfig \<and> globalConfigs (exec_store x) = globalConfigs st"
    if "\<not> ?flip"
    using execute_globalConfig(2)[of env sched st globalConfig contexts argv outputStream
        testWatcher startRun printNoTestsMessage] that
    unfolding x_def by simp
  have f: "final out = exec_store x"
    unfolding out_def x_def using assms(3) by (rule runJest_final)
  have r: "filter is_RunTests (trace out)
      = [RunTests (exec_globalConfig x) (exec_options x) (exec_tests x) testWatcher]"
    unfolding out_def x_def using assms(3) by (rule runJest_calls)
  show ?thesis
    using keep by (auto simp: r f)
qed

theorem single_test_keeps_config_witness:
  "filter is_RunTests
     (trace (runJest (sample_env search_all ran) []
               (sample_store (sample_globalConfig\<lparr>verbose := Some False\<rparr>)) 0 [0]
               sample_argv 1 2 3 None None))
     = [RunTests 0
          \<lparr>maxWorkers = 1, pattern = sample_pattern sample_argv, startRun = 3,
           testNamePattern = None, testPathPattern = dq @ dq\<rparr>
          [\<lparr>test_context = 0, path = ''a.test.js''\<rparr>] 2]
   \<and> globalConfigs (final (runJest (sample_env search_all ran) []
         (sample_store (sample_globalConfig\<lparr>verbose := Some False\<rparr>)) 0 [0]
         sample_argv 1 2 3 None None))
     = globalConfigs (sample_store (sample_globalConfig\<lparr>verbose := Some False\<rparr>))"
  using single_test_keeps_config[of "sample_env search_all ran" "[]"
      "sample_store (sample_globalConfig\<lparr>verbose := Some False\<rparr>)" 0 "[0]" sample_argv 1 2 3
      None None]
  by (simp add: run_defs sample_defs)

end
